theory Spec2Isabelle
  imports Main "HOL-Library.Word" "HOL-Library.Signed_Division"
begin

section \<open>Machine types of a.cc\<close>

text \<open>
  The program is built for 64-bit Linux (it calls \<open>mmap\<close> with \<open>MAP_HUGETLB\<close>):
  \<open>std::size_t\<close> is an unsigned 64-bit integer, \<open>int\<close> a 32-bit two's complement
  integer (read with \<open>sint\<close>), a pointer a 64-bit address. \<open>static_cast<int>\<close> of a
  \<open>size_t\<close> keeps the low 32 bits (\<open>ucast\<close>); \<open>static_cast<std::size_t>\<close> of an
  \<open>int\<close> extends the sign (\<open>scast\<close>).
\<close>

type_synonym size_t = "64 word"
type_synonym c_int = "32 word"
type_synonym ptr = "64 word"

definition nullptr :: ptr where
  "nullptr = 0"

text \<open>\<open>MAP_FAILED\<close> of \<open><sys/mman.h>\<close> is \<open>((void *) -1)\<close>.\<close>

definition MAP_FAILED :: ptr where
  "MAP_FAILED = - 1"

definition sizeof_int :: size_t where
  "sizeof_int = 4"

section \<open>The world outside the program\<close>

text \<open>
  Memory is a store of blocks: a base address owns the array of \<open>int\<close> slots that the
  operating system handed out at that address. Reading or writing a slot that no block
  holds is undefined behaviour in C++; the model makes it a fault. Passing \<open>free\<close> an
  address that is neither null nor the base of a block is a fault too.
\<close>

datatype fault = Invalid_access | Invalid_free

text \<open>
  The requests the program makes of the system, in the order it makes them.
  \<open>Sys_mmap_hugetlb sz len\<close> is
  \<open>mmap(nullptr, len, PROT_READ | PROT_WRITE,
        MAP_HUGETLB | (sz << MAP_HUGE_SHIFT) | MAP_PRIVATE | MAP_ANONYMOUS, -1, 0)\<close>,
  \<open>Sys_madvise_hugepage p len\<close> is \<open>madvise(p, len, MADV_HUGEPAGE)\<close>.
\<close>

datatype syscall =
    Sys_mmap_hugetlb int size_t
  | Sys_munmap ptr size_t
  | Sys_posix_memalign size_t size_t
  | Sys_madvise_hugepage ptr size_t
  | Sys_malloc size_t
  | Sys_free ptr

record world =
  heap :: "ptr \<Rightarrow> c_int list option"
  stdout :: "string list"
  clock_reads :: nat
  syscalls :: "syscall list"

text \<open>A block of \<open>len\<close> bytes holds \<open>len div sizeof(int)\<close> slots.\<close>

definition new_block :: "size_t \<Rightarrow> (nat \<Rightarrow> c_int) \<Rightarrow> c_int list" where
  "new_block len fill = map fill [0..<unat len div unat sizeof_int]"

definition request :: "syscall \<Rightarrow> world \<Rightarrow> world" where
  "request c w = w\<lparr>syscalls := syscalls w @ [c]\<rparr>"

text \<open>
  What the allocator answers is not the program's choice: it is a parameter.
  \<open>reply_ptr\<close> is the address returned, \<open>reply_fill\<close> the indeterminate contents of the
  new block.
\<close>

record alloc_reply =
  reply_ptr :: ptr
  reply_fill :: "nat \<Rightarrow> c_int"

text \<open>
  \<open>mmap\<close> returns \<open>MAP_FAILED\<close> on failure, and otherwise the address of a new
  zero-filled anonymous mapping.
\<close>

definition os_mmap :: "ptr \<Rightarrow> int \<Rightarrow> size_t \<Rightarrow> world \<Rightarrow> ptr \<times> world" where
  "os_mmap ret sz len w =
     (ret,
      (request (Sys_mmap_hugetlb sz len) w)
        \<lparr>heap := (if ret = MAP_FAILED then heap w
                  else (heap w)(ret \<mapsto> new_block len (\<lambda>k. 0)))\<rparr>)"

text \<open>
  \<open>munmap(p, len)\<close> on a huge-page mapping with pages of \<open>2^sz\<close> bytes releases the
  mapping when \<open>len\<close> is a multiple of the page size and not 0. For any other \<open>len\<close>
  it returns \<open>EINVAL\<close> and releases nothing; the program ignores the return value. The
  page size of the mapping at \<open>p\<close> is what the kernel knows of it: \<open>mmap_vec<sz>\<close> maps
  and unmaps with the same \<open>sz\<close>.
\<close>

definition os_munmap :: "int \<Rightarrow> ptr \<Rightarrow> size_t \<Rightarrow> world \<Rightarrow> world" where
  "os_munmap sz p len w =
     (request (Sys_munmap p len) w)
       \<lparr>heap := (if len \<noteq> 0 \<and> 2 ^ nat sz dvd unat len then (heap w)(p := None)
                 else heap w)\<rparr>"

text \<open>
  \<open>malloc\<close> returns a null pointer on failure, and otherwise the address of a new block
  with indeterminate contents.
\<close>

definition os_malloc :: "alloc_reply \<Rightarrow> size_t \<Rightarrow> world \<Rightarrow> ptr \<times> world" where
  "os_malloc r len w =
     (reply_ptr r,
      (request (Sys_malloc len) w)
        \<lparr>heap := (if reply_ptr r = nullptr then heap w
                  else (heap w)(reply_ptr r \<mapsto> new_block len (reply_fill r)))\<rparr>)"

text \<open>
  \<open>posix_memalign(&memptr, alignment, len)\<close> returns 0 and stores the address of the new
  block in \<open>memptr\<close>, or returns an error number and leaves \<open>memptr\<close> as it was
  (POSIX.1-2008 TC2, and Linux before it). The result is the return value and the new
  value of \<open>memptr\<close>.
\<close>

definition os_posix_memalign ::
  "c_int \<Rightarrow> alloc_reply \<Rightarrow> ptr \<Rightarrow> size_t \<Rightarrow> size_t \<Rightarrow> world \<Rightarrow> c_int \<times> ptr \<times> world" where
  "os_posix_memalign rc r memptr alignment len w =
     (if rc = 0 then
        (rc, reply_ptr r,
         (request (Sys_posix_memalign alignment len) w)
           \<lparr>heap := (if reply_ptr r = nullptr then heap w
                     else (heap w)(reply_ptr r \<mapsto> new_block len (reply_fill r)))\<rparr>)
      else (rc, memptr, request (Sys_posix_memalign alignment len) w))"

text \<open>\<open>madvise\<close> is a hint: it returns 0 or -1 and changes no contents.\<close>

definition os_madvise :: "c_int \<Rightarrow> ptr \<Rightarrow> size_t \<Rightarrow> world \<Rightarrow> c_int \<times> world" where
  "os_madvise rc p len w = (rc, request (Sys_madvise_hugepage p len) w)"

text \<open>\<open>free(nullptr)\<close> does nothing; otherwise the address must be the base of a block.\<close>

definition os_free :: "ptr \<Rightarrow> world \<Rightarrow> fault + world" where
  "os_free p w =
     (if p = nullptr then Inr (request (Sys_free p) w)
      else (case heap w p of
              None \<Rightarrow> Inl Invalid_free
            | Some blk \<Rightarrow> Inr ((request (Sys_free p) w)\<lparr>heap := (heap w)(p := None)\<rparr>)))"

text \<open>A reference \<open>data[i]\<close> is the base address and the index of the slot.\<close>

type_synonym int_ref = "ptr \<times> size_t"

definition load :: "int_ref \<Rightarrow> world \<Rightarrow> fault + c_int" where
  "load r w =
     (case heap w (fst r) of
        None \<Rightarrow> Inl Invalid_access
      | Some blk \<Rightarrow>
          if unat (snd r) < length blk then Inr (blk ! unat (snd r)) else Inl Invalid_access)"

definition store :: "int_ref \<Rightarrow> c_int \<Rightarrow> world \<Rightarrow> fault + world" where
  "store r x w =
     (case heap w (fst r) of
        None \<Rightarrow> Inl Invalid_access
      | Some blk \<Rightarrow>
          if unat (snd r) < length blk
          then Inr (w\<lparr>heap := (heap w)(fst r \<mapsto> blk[unat (snd r) := x])\<rparr>)
          else Inl Invalid_access)"

text \<open>Standard output, as the list of the lines written so far (each ends with \<open>std::endl\<close>).\<close>

definition println :: "string \<Rightarrow> world \<Rightarrow> world" where
  "println s w = w\<lparr>stdout := stdout w @ [s]\<rparr>"

fun digits10 :: "nat \<Rightarrow> string" where
  "digits10 n =
     (if n < 10 then [''0123456789'' ! n]
      else digits10 (n div 10) @ [''0123456789'' ! (n mod 10)])"

definition show_size_t :: "size_t \<Rightarrow> string" where
  "show_size_t x = digits10 (unat x)"

definition show_long :: "int \<Rightarrow> string" where
  "show_long t = (if t < 0 then ''-'' @ digits10 (nat (- t)) else digits10 (nat t))"

section \<open>The timer \<open>ms\<close>\<close>

text \<open>
  The \<open>k\<close>-th call of \<open>high_resolution_clock::now()\<close> reads \<open>clk k\<close>, a count of
  nanoseconds (the clock's period in libstdc++ and libc++). \<open>duration_cast\<close> to
  milliseconds is C++ integer division by \<open>10^6\<close>: it truncates towards zero (\<open>sdiv\<close>).
  The work \<open>f\<close> may raise (\<open>Inl\<close>); \<open>ms\<close> catches nothing.
\<close>

definition now :: "(nat \<Rightarrow> int) \<Rightarrow> world \<Rightarrow> int \<times> world" where
  "now clk w = (clk (clock_reads w), w\<lparr>clock_reads := Suc (clock_reads w)\<rparr>)"

definition ms :: "(nat \<Rightarrow> int) \<Rightarrow> (world \<Rightarrow> 'e + 'a \<times> world) \<Rightarrow> world \<Rightarrow> 'e + int \<times> 'a \<times> world" where
  "ms clk f w =
     (case now clk w of
        (start, w1) \<Rightarrow>
          (case f w1 of
             Inl e \<Rightarrow> Inl e
           | Inr (r, w2) \<Rightarrow>
               (case now clk w2 of
                  (stop, w3) \<Rightarrow> Inr ((stop - start) sdiv 1000000, r, w3))))"

section \<open>The three buffer classes\<close>

text \<open>The private members \<open>size\<close> and \<open>data\<close>, the same in the three classes.\<close>

record buffer =
  size_m :: size_t
  data :: ptr

text \<open>
  The loop of \<open>sum()\<close>, the same in the three classes. The OpenMP reduction adds the
  same terms in another order; addition modulo \<open>2^64\<close> is associative and commutative, so
  the sequential loop computes the same value.
\<close>

function sum_loop :: "buffer \<Rightarrow> size_t \<Rightarrow> size_t \<Rightarrow> world \<Rightarrow> fault + size_t" where
  "sum_loop v i ans w =
     (if i < size_m v then
        (case load (data v, i) w of
           Inl e \<Rightarrow> Inl e
         | Inr x \<Rightarrow> sum_loop v (i + 1) (ans + scast x) w)
      else Inr ans)"
  by pat_completeness auto
termination
  by (relation "measure (\<lambda>(v, i, ans, w). unat (size_m v - i))") (simp, clarsimp, unat_arith)

subsection \<open>\<open>mmap_vec<sz>\<close>: explicit huge pages of \<open>2^sz\<close> bytes\<close>

definition mmap_vec_new :: buffer where
  "mmap_vec_new = \<lparr>size_m = 0, data = nullptr\<rparr>"

definition mmap_vec_init :: "int \<Rightarrow> ptr \<Rightarrow> size_t \<Rightarrow> buffer \<Rightarrow> world \<Rightarrow> buffer \<times> world" where
  "mmap_vec_init sz ret n v w =
     (let v1 = v\<lparr>size_m := n\<rparr> in
      case os_mmap ret sz (sizeof_int * n) w of
        (p, w1) \<Rightarrow> (v1\<lparr>data := p\<rparr>, w1))"

definition mmap_vec_free :: "int \<Rightarrow> buffer \<Rightarrow> world \<Rightarrow> fault + world" where
  "mmap_vec_free sz v w = Inr (os_munmap sz (data v) (sizeof_int * size_m v) w)"

definition mmap_vec_at :: "buffer \<Rightarrow> size_t \<Rightarrow> int_ref" where
  "mmap_vec_at v i = (data v, i)"

definition mmap_vec_sum :: "buffer \<Rightarrow> world \<Rightarrow> fault + size_t" where
  "mmap_vec_sum v w = sum_loop v 0 0 w"

definition mmap_vec_ok :: "buffer \<Rightarrow> bool" where
  "mmap_vec_ok v = (data v \<noteq> MAP_FAILED)"

subsection \<open>\<open>hp_vec\<close>: aligned heap memory with a transparent-huge-page hint\<close>

definition hp_vec_new :: buffer where
  "hp_vec_new = \<lparr>size_m = 0, data = nullptr\<rparr>"

text \<open>
  \<open>rc\<close> and \<open>r\<close> are the answer of \<open>posix_memalign\<close>, \<open>adv\<close> the answer of \<open>madvise\<close>.
  The program looks at neither return value.
\<close>

definition hp_vec_init ::
  "c_int \<Rightarrow> alloc_reply \<Rightarrow> c_int \<Rightarrow> size_t \<Rightarrow> buffer \<Rightarrow> world \<Rightarrow> buffer \<times> world" where
  "hp_vec_init rc r adv n v w =
     (let v1 = v\<lparr>size_m := n\<rparr> in
      case os_posix_memalign rc r (data v1) (push_bit 21 1 * 1) (n * sizeof_int) w of
        (_, p, w1) \<Rightarrow>
          (let v2 = v1\<lparr>data := p\<rparr> in
           case os_madvise adv (data v2) (sizeof_int * n) w1 of
             (_, w2) \<Rightarrow> (v2, w2)))"

definition hp_vec_free :: "buffer \<Rightarrow> world \<Rightarrow> fault + world" where
  "hp_vec_free v w = os_free (data v) w"

definition hp_vec_at :: "buffer \<Rightarrow> size_t \<Rightarrow> int_ref" where
  "hp_vec_at v i = (data v, i)"

definition hp_vec_sum :: "buffer \<Rightarrow> world \<Rightarrow> fault + size_t" where
  "hp_vec_sum v w = sum_loop v 0 0 w"

definition hp_vec_ok :: "buffer \<Rightarrow> bool" where
  "hp_vec_ok v = (data v \<noteq> nullptr)"

subsection \<open>\<open>vec\<close>: the standard heap\<close>

definition vec_new :: buffer where
  "vec_new = \<lparr>size_m = 0, data = nullptr\<rparr>"

definition vec_init :: "alloc_reply \<Rightarrow> size_t \<Rightarrow> buffer \<Rightarrow> world \<Rightarrow> buffer \<times> world" where
  "vec_init r n v w =
     (let v1 = v\<lparr>size_m := n\<rparr> in
      case os_malloc r (sizeof_int * n) w of
        (p, w1) \<Rightarrow> (v1\<lparr>data := p\<rparr>, w1))"

definition vec_free :: "buffer \<Rightarrow> world \<Rightarrow> fault + world" where
  "vec_free v w = os_free (data v) w"

definition vec_at :: "buffer \<Rightarrow> size_t \<Rightarrow> int_ref" where
  "vec_at v i = (data v, i)"

definition vec_sum :: "buffer \<Rightarrow> world \<Rightarrow> fault + size_t" where
  "vec_sum v w = sum_loop v 0 0 w"

definition vec_ok :: "buffer \<Rightarrow> bool" where
  "vec_ok v = (data v \<noteq> nullptr)"

subsection \<open>The template parameter \<open>T\<close> of \<open>run_bench\<close>\<close>

text \<open>
  \<open>run_bench<T>\<close> uses \<open>T\<close> through its default constructor and its five members; a
  class is the record of them, with the system's answers to its \<open>init\<close> supplied.
\<close>

record buffer_class =
  T_new :: buffer
  T_init :: "size_t \<Rightarrow> buffer \<Rightarrow> world \<Rightarrow> buffer \<times> world"
  T_free :: "buffer \<Rightarrow> world \<Rightarrow> fault + world"
  T_at :: "buffer \<Rightarrow> size_t \<Rightarrow> int_ref"
  T_sum :: "buffer \<Rightarrow> world \<Rightarrow> fault + size_t"
  T_ok :: "buffer \<Rightarrow> bool"

definition mmap_vec :: "int \<Rightarrow> ptr \<Rightarrow> buffer_class" where
  "mmap_vec sz ret =
     \<lparr>T_new = mmap_vec_new, T_init = mmap_vec_init sz ret, T_free = mmap_vec_free sz,
      T_at = mmap_vec_at, T_sum = mmap_vec_sum, T_ok = mmap_vec_ok\<rparr>"

definition hp_vec :: "c_int \<Rightarrow> alloc_reply \<Rightarrow> c_int \<Rightarrow> buffer_class" where
  "hp_vec rc r adv =
     \<lparr>T_new = hp_vec_new, T_init = hp_vec_init rc r adv, T_free = hp_vec_free,
      T_at = hp_vec_at, T_sum = hp_vec_sum, T_ok = hp_vec_ok\<rparr>"

definition vec :: "alloc_reply \<Rightarrow> buffer_class" where
  "vec r =
     \<lparr>T_new = vec_new, T_init = vec_init r, T_free = vec_free,
      T_at = vec_at, T_sum = vec_sum, T_ok = vec_ok\<rparr>"

section \<open>The benchmark driver \<open>run_bench\<close>\<close>

text \<open>
  The touch loop \<open>v[i] = static_cast<int>(i)\<close> for \<open>i\<close> from 0 below \<open>n\<close>. The OpenMP
  workers write disjoint slots, so the order of the writes does not show in the result.
\<close>

function touch_loop :: "buffer_class \<Rightarrow> buffer \<Rightarrow> size_t \<Rightarrow> size_t \<Rightarrow> world \<Rightarrow> fault + world" where
  "touch_loop T v n i w =
     (if i < n then
        (case store (T_at T v i) (ucast i) w of
           Inl e \<Rightarrow> Inl e
         | Inr w1 \<Rightarrow> touch_loop T v n (i + 1) w1)
      else Inr w)"
  by pat_completeness auto
termination
  by (relation "measure (\<lambda>(T, v, n, i, w). unat (n - i))") (simp, clarsimp, unat_arith)

definition touch :: "buffer_class \<Rightarrow> buffer \<Rightarrow> size_t \<Rightarrow> world \<Rightarrow> fault + world" where
  "touch T v n w = touch_loop T v n 0 w"

definition bench_size :: size_t where
  "bench_size = 16 * 1024 * 1024 * 1024"

text \<open>A timed lambda returns nothing: its effect is the world it leaves, or a fault.\<close>

definition void :: "fault + world \<Rightarrow> fault + unit \<times> world" where
  "void r = (case r of Inl e \<Rightarrow> Inl e | Inr w \<Rightarrow> Inr ((), w))"

text \<open>
  The timed lambda of the sum phase: \<open>std::cout << name << " sum: " << v.sum() << std::endl\<close>.
\<close>

definition print_sum :: "buffer_class \<Rightarrow> buffer \<Rightarrow> string \<Rightarrow> world \<Rightarrow> fault + world" where
  "print_sum T v name w =
     (case T_sum T v w of
        Inl e \<Rightarrow> Inl e
      | Inr s \<Rightarrow> Inr (println (name @ '' sum: '' @ show_size_t s) w))"

definition run_bench :: "(nat \<Rightarrow> int) \<Rightarrow> buffer_class \<Rightarrow> string \<Rightarrow> world \<Rightarrow> fault + world" where
  "run_bench clk T name w0 =
     (case ms clk (\<lambda>w. Inr (T_init T bench_size (T_new T) w)) w0 of
        Inl e \<Rightarrow> Inl e
      | Inr (t_alloc, v, w1) \<Rightarrow>
          if \<not> T_ok T v then
            Inr (println [] (println (name @ '' failed to allocate memory'') w1))
          else
            (case ms clk (\<lambda>w. void (touch T v bench_size w)) w1 of
               Inl e \<Rightarrow> Inl e
             | Inr (t_touch, _, w2) \<Rightarrow>
            (case ms clk (\<lambda>w. void (print_sum T v name w)) w2 of
               Inl e \<Rightarrow> Inl e
             | Inr (t_sum, _, w3) \<Rightarrow>
            (case ms clk (\<lambda>w. void (T_free T v w)) w3 of
               Inl e \<Rightarrow> Inl e
             | Inr (t_free, _, w4) \<Rightarrow>
                 Inr (println []
                     (println (name @ '' time free: '' @ show_long t_free @ '' ms'')
                     (println (name @ '' time sum: '' @ show_long t_sum @ '' ms'')
                     (println (name @ '' time touch: '' @ show_long t_touch @ '' ms'')
                     (println (name @ '' time alloc: '' @ show_long t_alloc @ '' ms'')
                      w4)))))))))"

section \<open>The orchestrator \<open>main\<close>\<close>

text \<open>
  The system's answers to the four allocations are parameters: \<open>rc\<close>, \<open>r_thp\<close> and
  \<open>adv\<close> for \<open>hp_vec\<close>, the addresses \<open>p_2mb\<close> and \<open>p_1gb\<close> returned by the two
  \<open>mmap\<close> calls, \<open>r_malloc\<close> for \<open>vec\<close>. The result is the exit status.
\<close>

definition main ::
  "(nat \<Rightarrow> int) \<Rightarrow> c_int \<Rightarrow> alloc_reply \<Rightarrow> c_int \<Rightarrow> ptr \<Rightarrow> ptr \<Rightarrow> alloc_reply \<Rightarrow> world
     \<Rightarrow> fault + c_int \<times> world" where
  "main clk rc r_thp adv p_2mb p_1gb r_malloc w0 =
     (case ms clk (\<lambda>w. void (run_bench clk (hp_vec rc r_thp adv) ''thp'' w)) w0 of
        Inl e \<Rightarrow> Inl e
      | Inr (t_thp, _, w1) \<Rightarrow>
     (case ms clk (\<lambda>w. void (run_bench clk (mmap_vec 21 p_2mb) ''2mb_hp'' w)) w1 of
        Inl e \<Rightarrow> Inl e
      | Inr (t_2mb_hp, _, w2) \<Rightarrow>
     (case ms clk (\<lambda>w. void (run_bench clk (mmap_vec 30 p_1gb) ''1gb_hp'' w)) w2 of
        Inl e \<Rightarrow> Inl e
      | Inr (t_1gb_hp, _, w3) \<Rightarrow>
     (case ms clk (\<lambda>w. void (run_bench clk (vec r_malloc) ''malloc'' w)) w3 of
        Inl e \<Rightarrow> Inl e
      | Inr (t_malloc, _, w4) \<Rightarrow>
          Inr (0,
               println (''time malloc: '' @ show_long t_malloc @ '' ms'')
              (println (''time 1gb_hp: '' @ show_long t_1gb_hp @ '' ms'')
              (println (''time 2mb_hp: '' @ show_long t_2mb_hp @ '' ms'')
              (println (''time thp: '' @ show_long t_thp @ '' ms'')
               w4))))))))"

section \<open>Vocabulary of the properties\<close>

text \<open>When the system's answer means that the allocation succeeded.\<close>

definition mmap_succeeded :: "ptr \<Rightarrow> bool" where
  "mmap_succeeded ret = (ret \<noteq> MAP_FAILED)"

definition malloc_succeeded :: "alloc_reply \<Rightarrow> bool" where
  "malloc_succeeded r = (reply_ptr r \<noteq> nullptr)"

definition memalign_succeeded :: "c_int \<Rightarrow> alloc_reply \<Rightarrow> bool" where
  "memalign_succeeded rc r = (rc = 0 \<and> reply_ptr r \<noteq> nullptr)"

text \<open>\<open>init(n)\<close> on a newly constructed buffer, the touch pass over \<open>[0, n)\<close>, then \<open>sum()\<close>.\<close>

definition touch_then_sum :: "buffer_class \<Rightarrow> size_t \<Rightarrow> world \<Rightarrow> fault + size_t" where
  "touch_then_sum T n w0 =
     (case T_init T n (T_new T) w0 of
        (v, w1) \<Rightarrow>
          (case touch T v n w1 of
             Inl e \<Rightarrow> Inl e
           | Inr w2 \<Rightarrow> T_sum T v w2))"

text \<open>Whether \<open>init(n)\<close> on a newly constructed buffer leaves it \<open>ok()\<close>.\<close>

definition init_ok :: "buffer_class \<Rightarrow> size_t \<Rightarrow> world \<Rightarrow> bool" where
  "init_ok T n w0 = T_ok T (fst (T_init T n (T_new T) w0))"

text \<open>A block after the touch loop has run over the slots \<open>a \<le> k < b\<close>.\<close>

definition touched :: "c_int list \<Rightarrow> nat \<Rightarrow> nat \<Rightarrow> c_int list" where
  "touched blk a b = map (\<lambda>k. if a \<le> k \<and> k < b then of_nat k else blk ! k) [0..<length blk]"

text \<open>
  The world after a driver run whose allocation failed: the two clock readings around
  \<open>init\<close>, the requests \<open>reqs\<close> that \<open>init\<close> made, the failure notice and the empty
  line. Nothing else differs from the world \<open>w\<close> before the run.
\<close>

definition failed_run :: "string \<Rightarrow> syscall list \<Rightarrow> world \<Rightarrow> world" where
  "failed_run name reqs w =
     w\<lparr>clock_reads := clock_reads w + 2,
       stdout := stdout w @ [name @ '' failed to allocate memory'', []],
       syscalls := syscalls w @ reqs\<rparr>"

text \<open>The world after one more reading of the clock.\<close>

definition tick :: "world \<Rightarrow> world" where
  "tick w = w\<lparr>clock_reads := Suc (clock_reads w)\<rparr>"

text \<open>The whole milliseconds from reading number \<open>a\<close> to reading number \<open>b\<close>.\<close>

definition elapsed :: "(nat \<Rightarrow> int) \<Rightarrow> nat \<Rightarrow> nat \<Rightarrow> int" where
  "elapsed clk a b = (clk b - clk a) sdiv 1000000"

text \<open>
  What \<open>sum()\<close> returns after the touch pass over the \<open>2^34\<close> slots of the driver:
  \<open>2^64 - 2^33\<close>.
\<close>

definition bench_sum :: size_t where
  "bench_sum = 18446744065119617024"

text \<open>
  The world after a driver run whose allocation succeeded at address \<open>p\<close>, started in
  \<open>w\<close>: eight clock readings (two around each phase); the block at \<open>p\<close> is gone
  again; \<open>reqs\<close> are the requests of \<open>init\<close> and \<open>free\<close>; the output is the sum line,
  the four timing lines, each phase timed between its own two readings, and an empty
  line.
\<close>

definition good_run :: "(nat \<Rightarrow> int) \<Rightarrow> string \<Rightarrow> syscall list \<Rightarrow> ptr \<Rightarrow> world \<Rightarrow> world" where
  "good_run clk name reqs p w =
     w\<lparr>clock_reads := clock_reads w + 8,
       heap := (heap w)(p := None),
       stdout := stdout w @
         [name @ '' sum: '' @ show_size_t bench_sum,
          name @ '' time alloc: '' @
            show_long (elapsed clk (clock_reads w) (clock_reads w + 1)) @ '' ms'',
          name @ '' time touch: '' @
            show_long (elapsed clk (clock_reads w + 2) (clock_reads w + 3)) @ '' ms'',
          name @ '' time sum: '' @
            show_long (elapsed clk (clock_reads w + 4) (clock_reads w + 5)) @ '' ms'',
          name @ '' time free: '' @
            show_long (elapsed clk (clock_reads w + 6) (clock_reads w + 7)) @ '' ms'',
          []],
       syscalls := syscalls w @ reqs\<rparr>"

text \<open>
  The world after the driver has run for each class, started in \<open>w\<close>. For
  \<open>mmap_vec<sz>\<close> it is the world when the page size \<open>2^sz\<close> divides the 64 GiB of the
  driver's buffer, as 2 MiB and 1 GiB do, so that \<open>munmap\<close> releases the mapping.
\<close>

definition thp_run :: "(nat \<Rightarrow> int) \<Rightarrow> c_int \<Rightarrow> alloc_reply \<Rightarrow> string \<Rightarrow> world \<Rightarrow> world" where
  "thp_run clk rc r name w =
     (if memalign_succeeded rc r then
        good_run clk name
          [Sys_posix_memalign 2097152 (bench_size * sizeof_int),
           Sys_madvise_hugepage (reply_ptr r) (sizeof_int * bench_size),
           Sys_free (reply_ptr r)]
          (reply_ptr r) w
      else
        failed_run name
          [Sys_posix_memalign 2097152 (bench_size * sizeof_int),
           Sys_madvise_hugepage nullptr (sizeof_int * bench_size)] w)"

definition mmap_run :: "(nat \<Rightarrow> int) \<Rightarrow> int \<Rightarrow> ptr \<Rightarrow> string \<Rightarrow> world \<Rightarrow> world" where
  "mmap_run clk sz ret name w =
     (if mmap_succeeded ret then
        good_run clk name
          [Sys_mmap_hugetlb sz (sizeof_int * bench_size),
           Sys_munmap ret (sizeof_int * bench_size)]
          ret w
      else failed_run name [Sys_mmap_hugetlb sz (sizeof_int * bench_size)] w)"

definition malloc_run :: "(nat \<Rightarrow> int) \<Rightarrow> alloc_reply \<Rightarrow> string \<Rightarrow> world \<Rightarrow> world" where
  "malloc_run clk r name w =
     (if malloc_succeeded r then
        good_run clk name
          [Sys_malloc (sizeof_int * bench_size), Sys_free (reply_ptr r)]
          (reply_ptr r) w
      else failed_run name [Sys_malloc (sizeof_int * bench_size)] w)"

text \<open>
  The world that \<open>main\<close> leaves, started in \<open>w\<close>, when the four driver runs have left
  the worlds \<open>b1\<close>, \<open>b2\<close>, \<open>b3\<close>, \<open>b4\<close>: the last clock reading, and one total-time
  line for each run, timed from the reading before the run to the reading after it.
\<close>

definition main_report :: "(nat \<Rightarrow> int) \<Rightarrow> world \<Rightarrow> world \<Rightarrow> world \<Rightarrow> world \<Rightarrow> world \<Rightarrow> world" where
  "main_report clk w b1 b2 b3 b4 =
     (tick b4)
       \<lparr>stdout := stdout b4 @
          [''time thp: '' @
             show_long (elapsed clk (clock_reads w) (clock_reads b1)) @ '' ms'',
           ''time 2mb_hp: '' @
             show_long (elapsed clk (Suc (clock_reads b1)) (clock_reads b2)) @ '' ms'',
           ''time 1gb_hp: '' @
             show_long (elapsed clk (Suc (clock_reads b2)) (clock_reads b3)) @ '' ms'',
           ''time malloc: '' @
             show_long (elapsed clk (Suc (clock_reads b3)) (clock_reads b4)) @ '' ms'']\<rparr>"

text \<open>
  The value of a 32-bit pattern \<open>0 \<le> x < 2^32\<close> read as a signed integer: negative when
  bit 31 is set.
\<close>

definition sign_extend32 :: "int \<Rightarrow> int" where
  "sign_extend32 x = (if x < 2 ^ 31 then x else x - 2 ^ 32)"

text \<open>
  The integer that slot \<open>k\<close> holds after the touch pass: \<open>k mod 2^32\<close> read as a signed
  32-bit integer.
\<close>

definition stored_value :: "nat \<Rightarrow> int" where
  "stored_value k = sign_extend32 (int k mod 2 ^ 32)"

subsection \<open>Concrete inputs\<close>

definition boot :: world where
  "boot = \<lparr>heap = Map.empty, stdout = [], clock_reads = 0, syscalls = []\<rparr>"

definition zero_fill :: "nat \<Rightarrow> c_int" where
  "zero_fill k = 0"

definition block_at :: "ptr \<Rightarrow> alloc_reply" where
  "block_at p = \<lparr>reply_ptr = p, reply_fill = zero_fill\<rparr>"

text \<open>A clock whose readings are 1.5 ms apart.\<close>

definition even_clock :: "nat \<Rightarrow> int" where
  "even_clock k = 1500000 * int k"

text \<open>A clock that runs backwards (\<open>high_resolution_clock\<close> need not be steady).\<close>

definition backward_clock :: "nat \<Rightarrow> int" where
  "backward_clock k = - 1500000 * int k"

text \<open>A unit of work that prints a line, and one that fails.\<close>

definition one_line :: "world \<Rightarrow> fault + unit \<times> world" where
  "one_line w = void (Inr (println ''work'' w))"

definition failing_work :: "world \<Rightarrow> fault + unit \<times> world" where
  "failing_work w = void (Inl Invalid_access)"

section \<open>The loops\<close>

lemma store_in_block:
  "heap w p = Some blk \<Longrightarrow> unat i < length blk \<Longrightarrow>
   store (p, i) x w = Inr (w\<lparr>heap := (heap w)(p \<mapsto> blk[unat i := x])\<rparr>)"
  by (simp add: store_def)

lemma load_in_block:
  "heap w p = Some blk \<Longrightarrow> unat i < length blk \<Longrightarrow> load (p, i) w = Inr (blk ! unat i)"
  by (simp add: load_def)

lemma unat_inc: "i < (n::64 word) \<Longrightarrow> unat (i + 1) = Suc (unat i)"
  by unat_arith

lemma touched_step:
  "a < length blk \<Longrightarrow> touched (blk[a := of_nat a]) (Suc a) b = touched blk a b" if "a < b"
proof (rule nth_equalityI)
  show "length (touched (blk[a := of_nat a]) (Suc a) b) = length (touched blk a b)"
    by (simp add: touched_def)
next
  fix k assume "k < length (touched (blk[a := of_nat a]) (Suc a) b)"
  then have k: "k < length blk" by (simp add: touched_def)
  show "touched (blk[a := of_nat a]) (Suc a) b ! k = touched blk a b ! k"
    using k that by (cases "k = a") (auto simp: touched_def nth_list_update)
qed

lemma touched_empty: "b \<le> a \<Longrightarrow> touched blk a b = blk"
  by (rule nth_equalityI) (auto simp: touched_def)

lemma touch_loop_run:
  assumes "\<And>j. T_at T v j = (p, j)"
    and "heap w p = Some blk" and "unat n \<le> length blk" and "i \<le> n"
  shows "touch_loop T v n i w = Inr (w\<lparr>heap := (heap w)(p \<mapsto> touched blk (unat i) (unat n))\<rparr>)"
  using assms
proof (induction T v n i w arbitrary: blk rule: touch_loop.induct)
  case (1 T v n i w)
  show ?case
  proof (cases "i < n")
    case True
    then have lt: "unat i < unat n" by (simp add: word_less_nat_alt)
    let ?blk1 = "blk[unat i := of_nat (unat i)]"
    let ?w1 = "w\<lparr>heap := (heap w)(p \<mapsto> ?blk1)\<rparr>"
    have st: "store (T_at T v i) (ucast i) w = Inr ?w1"
      using "1.prems" lt by (simp add: store_in_block)
    have suc: "unat (i + 1) = Suc (unat i)" using True by (rule unat_inc)
    have "touch_loop T v n (i + 1) ?w1 =
          Inr (?w1\<lparr>heap := (heap ?w1)(p \<mapsto> touched ?blk1 (unat (i + 1)) (unat n))\<rparr>)"
      using "1.prems" True by (intro "1.IH"[OF True st]) (simp_all add: inc_le)
    moreover have "touched ?blk1 (unat (i + 1)) (unat n) = touched blk (unat i) (unat n)"
      unfolding suc using lt "1.prems" by (intro touched_step) simp_all
    ultimately show ?thesis
      using True st by (subst touch_loop.simps) simp
  next
    case False
    with "1.prems" have "unat n \<le> unat i" by (simp add: word_less_nat_alt)
    then have "touched blk (unat i) (unat n) = blk" by (rule touched_empty)
    with False "1.prems" show ?thesis by (subst touch_loop.simps) (simp add: map_upd_triv)
  qed
qed

lemma sum_loop_run:
  assumes "heap w (data v) = Some blk" and "unat (size_m v) \<le> length blk" and "i \<le> size_m v"
  shows "sum_loop v i ans w =
         Inr (ans + (\<Sum>k\<leftarrow>[unat i..<unat (size_m v)]. scast (blk ! k)))"
  using assms
proof (induction v i ans w rule: sum_loop.induct)
  case (1 v i ans w)
  show ?case
  proof (cases "i < size_m v")
    case True
    then have lt: "unat i < unat (size_m v)" by (simp add: word_less_nat_alt)
    have ld: "load (data v, i) w = Inr (blk ! unat i)"
      using "1.prems" lt by (simp add: load_in_block)
    have suc: "unat (i + 1) = Suc (unat i)" using True by (rule unat_inc)
    have "sum_loop v (i + 1) (ans + scast (blk ! unat i)) w =
          Inr (ans + scast (blk ! unat i) + (\<Sum>k\<leftarrow>[unat (i + 1)..<unat (size_m v)]. scast (blk ! k)))"
      using "1.prems" True by (intro "1.IH"[OF True ld]) (simp_all add: inc_le)
    then show ?thesis
      using True ld lt by (subst sum_loop.simps) (simp add: suc upt_conv_Cons add.assoc)
  next
    case False
    with "1.prems" have "unat (size_m v) \<le> unat i" by (simp add: word_less_nat_alt)
    with False show ?thesis by (subst sum_loop.simps) simp
  qed
qed

section \<open>Sign extension and the sum of the touched values\<close>

lemma sint_of_nat32: "sint (word_of_nat k :: c_int) = sign_extend32 (int k mod 2 ^ 32)"
proof -
  have "sint (word_of_nat k :: c_int) = signed_take_bit 31 (int k)"
    by (simp add: signed_of_nat)
  also have "\<dots> = take_bit 32 (int k + 2 ^ 31) - 2 ^ 31"
    by (simp add: signed_take_bit_eq_take_bit_shift)
  also have "\<dots> = (int k + 2 ^ 31) mod 2 ^ 32 - 2 ^ 31"
    by (simp add: take_bit_eq_mod)
  also have "\<dots> = sign_extend32 (int k mod 2 ^ 32)"
  proof -
    define q where "q = int k div 2 ^ 32"
    define r where "r = int k mod 2 ^ 32"
    have k: "int k = q * 2 ^ 32 + r" and r: "0 \<le> r" "r < 2 ^ 32"
      by (simp_all add: q_def r_def)
    show ?thesis
    proof (cases "r < 2 ^ 31")
      case True
      have "int k + 2 ^ 31 = (r + 2 ^ 31) + q * 2 ^ 32"
        unfolding k by simp
      then have "(int k + 2 ^ 31) mod 2 ^ 32 = (r + 2 ^ 31) mod 2 ^ 32"
        by (simp only: mod_mult_self1)
      also have "\<dots> = r + 2 ^ 31" using True r by (intro mod_pos_pos_trivial) simp_all
      finally show ?thesis using True by (simp add: sign_extend32_def r_def)
    next
      case False
      have "int k + 2 ^ 31 = (r - 2 ^ 31) + (q + 1) * 2 ^ 32"
        unfolding k by (simp add: algebra_simps)
      then have "(int k + 2 ^ 31) mod 2 ^ 32 = (r - 2 ^ 31) mod 2 ^ 32"
        by (simp only: mod_mult_self1)
      also have "\<dots> = r - 2 ^ 31" using False r by (intro mod_pos_pos_trivial) simp_all
      finally show ?thesis using False by (simp add: sign_extend32_def r_def)
    qed
  qed
  finally show ?thesis .
qed

lemma scast_of_nat32:
  "(scast (word_of_nat k :: c_int) :: size_t) = word_of_int (sign_extend32 (int k mod 2 ^ 32))"
  by (simp only: sint_of_nat32[symmetric] of_int_sint)

lemma scast_of_nat32_small:
  assumes "k < 2 ^ 31"
  shows "(scast (word_of_nat k :: c_int) :: size_t) = word_of_nat k"
proof -
  have "int k mod 2 ^ 32 = int k" using assms by simp
  moreover have "int k < 2 ^ 31" using assms by simp
  ultimately show ?thesis by (simp add: scast_of_nat32 sign_extend32_def)
qed

lemma gauss_words: "(\<Sum>k\<leftarrow>[0..<n]. (word_of_nat k :: size_t)) = word_of_nat (n * (n - 1) div 2)"
proof (induction n)
  case 0
  show ?case by simp
next
  case (Suc n)
  have "n * (n - 1) div 2 + n = Suc n * n div 2"
    by (cases n) simp_all
  then have "(word_of_nat (n * (n - 1) div 2) :: size_t) + word_of_nat n = word_of_nat (Suc n * n div 2)"
    by (simp only: of_nat_add[symmetric])
  with Suc show ?case by simp
qed

section \<open>What \<open>init\<close> leaves behind\<close>

lemma slots_of_request:
  assumes "unat n < 2 ^ 62"
  shows "length (new_block (sizeof_int * n) f) = unat n"
proof -
  have "unat (4 * n) = 4 * unat n"
    using assms by (simp add: unat_word_ariths)
  then show ?thesis by (simp add: new_block_def sizeof_int_def)
qed

lemma mmap_vec_init_eq:
  "mmap_vec_init sz ret n v w =
     (\<lparr>size_m = n, data = ret\<rparr>,
      w\<lparr>syscalls := syscalls w @ [Sys_mmap_hugetlb sz (sizeof_int * n)],
        heap := (if ret = MAP_FAILED then heap w
                 else (heap w)(ret \<mapsto> new_block (sizeof_int * n) (\<lambda>k. 0)))\<rparr>)"
  by (simp add: mmap_vec_init_def os_mmap_def request_def)

lemma vec_init_eq:
  "vec_init r n v w =
     (\<lparr>size_m = n, data = reply_ptr r\<rparr>,
      w\<lparr>syscalls := syscalls w @ [Sys_malloc (sizeof_int * n)],
        heap := (if reply_ptr r = nullptr then heap w
                 else (heap w)(reply_ptr r \<mapsto> new_block (sizeof_int * n) (reply_fill r)))\<rparr>)"
  by (simp add: vec_init_def os_malloc_def request_def)

lemma hp_vec_init_eq:
  "hp_vec_init rc r adv n v w =
     (\<lparr>size_m = n, data = (if rc = 0 then reply_ptr r else data v)\<rparr>,
      w\<lparr>syscalls := syscalls w @
           [Sys_posix_memalign 2097152 (n * sizeof_int),
            Sys_madvise_hugepage (if rc = 0 then reply_ptr r else data v) (sizeof_int * n)],
        heap := (if rc = 0 \<and> reply_ptr r \<noteq> nullptr
                 then (heap w)(reply_ptr r \<mapsto> new_block (n * sizeof_int) (reply_fill r))
                 else heap w)\<rparr>)"
  by (simp add: hp_vec_init_def os_posix_memalign_def os_madvise_def request_def)

section \<open>\<open>init\<close>, the touch pass and \<open>sum()\<close> in a row\<close>

lemma touched_nth: "k < b \<Longrightarrow> b \<le> length blk \<Longrightarrow> touched blk 0 b ! k = word_of_nat k"
  by (simp add: touched_def)

lemma touch_then_sum_run:
  assumes at: "\<And>v j. T_at T v j = (data v, j)"
    and sm: "\<And>v w. T_sum T v w = sum_loop v 0 0 w"
    and init: "T_init T n (T_new T) w0 = (v, w1)"
    and sz: "size_m v = n"
    and blk: "heap w1 (data v) = Some blk" "length blk = unat n"
  shows "touch_then_sum T n w0 = Inr (\<Sum>k\<leftarrow>[0..<unat n]. scast (word_of_nat k :: c_int))"
proof -
  let ?blk2 = "touched blk 0 (unat n)"
  let ?w2 = "w1\<lparr>heap := (heap w1)(data v \<mapsto> ?blk2)\<rparr>"
  have t: "touch T v n w1 = Inr ?w2"
    unfolding touch_def using touch_loop_run [of T v "data v" w1 blk n 0] at blk by simp
  have "sum_loop v 0 0 ?w2 = Inr (0 + (\<Sum>k\<leftarrow>[unat (0::size_t)..<unat (size_m v)]. scast (?blk2 ! k)))"
    by (rule sum_loop_run) (simp_all add: sz blk touched_def)
  moreover have "(\<Sum>k\<leftarrow>[0..<unat n]. (scast (?blk2 ! k) :: size_t)) =
                 (\<Sum>k\<leftarrow>[0..<unat n]. scast (word_of_nat k :: c_int))"
    by (rule arg_cong [where f = sum_list], rule map_cong) (simp_all add: touched_nth blk)
  ultimately have "T_sum T v ?w2 = Inr (\<Sum>k\<leftarrow>[0..<unat n]. scast (word_of_nat k :: c_int))"
    by (simp add: sm sz)
  then show ?thesis by (simp add: touch_then_sum_def init t)
qed

lemma mmap_vec_touch_then_sum:
  assumes "unat n < 2 ^ 62" and "init_ok (mmap_vec sz ret) n w"
  shows "touch_then_sum (mmap_vec sz ret) n w = Inr (\<Sum>k\<leftarrow>[0..<unat n]. scast (word_of_nat k :: c_int))"
proof -
  obtain w1 where init: "mmap_vec_init sz ret n mmap_vec_new w = (\<lparr>size_m = n, data = ret\<rparr>, w1)"
    and h: "heap w1 = (if ret = MAP_FAILED then heap w
                       else (heap w)(ret \<mapsto> new_block (sizeof_int * n) (\<lambda>k. 0)))"
    by (simp add: mmap_vec_init_eq)
  have ok: "ret \<noteq> MAP_FAILED"
    using assms(2) by (simp add: init_ok_def mmap_vec_def init mmap_vec_ok_def)
  show ?thesis
    by (rule touch_then_sum_run [where v = "\<lparr>size_m = n, data = ret\<rparr>" and ?w1.0 = w1
          and blk = "new_block (sizeof_int * n) (\<lambda>k. 0)"])
      (simp_all add: mmap_vec_def mmap_vec_at_def mmap_vec_sum_def init h ok slots_of_request [OF assms(1)])
qed

lemma vec_touch_then_sum:
  assumes "unat n < 2 ^ 62" and "init_ok (vec r) n w"
  shows "touch_then_sum (vec r) n w = Inr (\<Sum>k\<leftarrow>[0..<unat n]. scast (word_of_nat k :: c_int))"
proof -
  obtain w1 where init: "vec_init r n vec_new w = (\<lparr>size_m = n, data = reply_ptr r\<rparr>, w1)"
    and h: "heap w1 = (if reply_ptr r = nullptr then heap w
                       else (heap w)(reply_ptr r \<mapsto> new_block (sizeof_int * n) (reply_fill r)))"
    by (simp add: vec_init_eq)
  have ok: "reply_ptr r \<noteq> nullptr"
    using assms(2) by (simp add: init_ok_def vec_def init vec_ok_def)
  show ?thesis
    by (rule touch_then_sum_run [where v = "\<lparr>size_m = n, data = reply_ptr r\<rparr>" and ?w1.0 = w1
          and blk = "new_block (sizeof_int * n) (reply_fill r)"])
      (simp_all add: vec_def vec_at_def vec_sum_def init h ok slots_of_request [OF assms(1)])
qed

lemma hp_vec_touch_then_sum:
  assumes "unat n < 2 ^ 62" and "init_ok (hp_vec rc r adv) n w"
  shows "touch_then_sum (hp_vec rc r adv) n w = Inr (\<Sum>k\<leftarrow>[0..<unat n]. scast (word_of_nat k :: c_int))"
proof -
  have ok: "rc = 0" "reply_ptr r \<noteq> nullptr"
    using assms(2)
    by (simp_all add: init_ok_def hp_vec_def hp_vec_init_eq hp_vec_ok_def hp_vec_new_def
        split: if_splits)
  obtain w1 where init: "hp_vec_init rc r adv n hp_vec_new w = (\<lparr>size_m = n, data = reply_ptr r\<rparr>, w1)"
    and h: "heap w1 = (heap w)(reply_ptr r \<mapsto> new_block (sizeof_int * n) (reply_fill r))"
    using ok by (simp add: hp_vec_init_eq mult.commute)
  show ?thesis
    by (rule touch_then_sum_run [where v = "\<lparr>size_m = n, data = reply_ptr r\<rparr>" and ?w1.0 = w1
          and blk = "new_block (sizeof_int * n) (reply_fill r)"])
      (simp_all add: hp_vec_def hp_vec_at_def hp_vec_sum_def init h slots_of_request [OF assms(1)])
qed

lemma sum_small_values:
  assumes "m \<le> 2 ^ 31"
  shows "(\<Sum>k\<leftarrow>[0..<m]. (scast (word_of_nat k :: c_int) :: size_t)) = word_of_nat (m * (m - 1) div 2)"
proof -
  have "(\<Sum>k\<leftarrow>[0..<m]. (scast (word_of_nat k :: c_int) :: size_t)) = (\<Sum>k\<leftarrow>[0..<m]. word_of_nat k)"
    using assms by (intro arg_cong [where f = sum_list] map_cong refl scast_of_nat32_small) simp
  then show ?thesis by (simp only: gauss_words)
qed

lemma gauss_fits:
  assumes "m \<le> 2 ^ 31"
  shows "unat (word_of_nat (m * (m - 1) div 2) :: size_t) = m * (m - 1) div 2"
proof -
  have "m * (m - 1) \<le> 2 ^ 31 * 2 ^ 31"
    using assms by (intro mult_le_mono) simp_all
  then have "m * (m - 1) div 2 < 2 ^ 64" by simp
  then show ?thesis by (simp add: unat_of_nat)
qed

lemma sum_signed_values:
  "(\<Sum>k\<leftarrow>[0..<m]. (scast (word_of_nat k :: c_int) :: size_t)) =
   word_of_int (\<Sum>k = 0..<m. sign_extend32 (int k mod 2 ^ 32))"
  by (induction m) (simp_all add: scast_of_nat32)

lemma stored_value_period: "stored_value (k + 4294967296) = stored_value k"
  by (simp add: stored_value_def)

lemma stored_value_low: "k < 2147483648 \<Longrightarrow> stored_value k = int k"
  by (simp add: stored_value_def sign_extend32_def)

lemma stored_value_high: "2147483648 \<le> k \<Longrightarrow> k < 4294967296 \<Longrightarrow> stored_value k = int k - 4294967296"
  by (simp add: stored_value_def sign_extend32_def)

lemma sum_int_upto: "(\<Sum>k = 0..<n. int k) = int (n * (n - 1) div 2)"
proof -
  have "(\<Sum>k = 0..<n. int k) = int (\<Sum>{0..<n})" by simp
  also have "\<Sum>{0..<n} = n * (n - 1) div 2" by (simp add: Sum_Ico_nat)
  finally show ?thesis .
qed

lemma stored_value_one_period: "(\<Sum>k = 0..<4294967296. stored_value k) = - 2147483648"
proof -
  have "(\<Sum>k = 0..<4294967296. stored_value k) =
        (\<Sum>k = 0..<2147483648. stored_value k) + (\<Sum>k = 2147483648..<4294967296. stored_value k)"
    by (rule sum.atLeastLessThan_concat [symmetric]) simp_all
  also have "(\<Sum>k = 0..<2147483648. stored_value k) = (\<Sum>k = 0..<2147483648. int k)"
    by (rule sum.cong) (simp_all add: stored_value_low)
  also have "(\<Sum>k = 2147483648..<4294967296. stored_value k) =
             (\<Sum>k = 2147483648..<4294967296. int k - 4294967296)"
    by (rule sum.cong) (simp_all add: stored_value_high)
  also have "\<dots> = (\<Sum>k = 2147483648..<4294967296. int k) - 2147483648 * 4294967296"
    by (simp add: sum_subtractf)
  finally have "(\<Sum>k = 0..<4294967296. stored_value k) =
      ((\<Sum>k = 0..<2147483648. int k) + (\<Sum>k = 2147483648..<4294967296. int k))
        - 2147483648 * 4294967296"
    by simp
  also have "(\<Sum>k = 0..<2147483648. int k) + (\<Sum>k = 2147483648..<4294967296. int k) =
             (\<Sum>k = 0..<4294967296. int k)"
    by (rule sum.atLeastLessThan_concat) simp_all
  also have "\<dots> = int (4294967296 * (4294967296 - 1) div 2)" by (rule sum_int_upto)
  finally show ?thesis by simp
qed

lemma stored_value_periods: "(\<Sum>k = 0..<j * 4294967296. stored_value k) = int j * (- 2147483648)"
proof (induction j)
  case 0
  show ?case by simp
next
  case (Suc j)
  have "(\<Sum>k = 0..<Suc j * 4294967296. stored_value k) =
        (\<Sum>k = 0..<j * 4294967296. stored_value k) + (\<Sum>k = j * 4294967296..<j * 4294967296 + 4294967296. stored_value k)"
    by (simp add: sum.atLeastLessThan_concat add.commute)
  also have "(\<Sum>k = j * 4294967296..<j * 4294967296 + 4294967296. stored_value k) =
             (\<Sum>k = 0..<4294967296. stored_value (k + j * 4294967296))"
    using sum.shift_bounds_nat_ivl [of stored_value 0 "j * 4294967296" 4294967296] by (simp add: add.commute)
  also have "\<dots> = (\<Sum>k = 0..<4294967296. stored_value k)"
  proof (rule sum.cong)
    fix k
    show "stored_value (k + j * 4294967296) = stored_value k"
    proof -
      have "int (k + j * 4294967296) mod 2 ^ 32 = (int k + int j * 2 ^ 32) mod 2 ^ 32" by simp
      also have "\<dots> = int k mod 2 ^ 32" by (simp only: mod_mult_self1)
      finally show ?thesis by (simp only: stored_value_def)
    qed
  qed simp
  finally show ?case by (simp add: Suc.IH stored_value_one_period algebra_simps)
qed

lemma bench_total:
  "(\<Sum>k\<leftarrow>[0..<unat bench_size]. (scast (word_of_nat k :: c_int) :: size_t)) = 18446744065119617024"
proof -
  have "unat bench_size = 4 * 4294967296" by (simp add: bench_size_def)
  then have "(\<Sum>k = 0..<unat bench_size. sign_extend32 (int k mod 2 ^ 32)) = - 8589934592"
    using stored_value_periods [of 4] by (simp add: stored_value_def)
  then show ?thesis by (simp add: sum_signed_values)
qed

lemma touch_loop_overrun:
  assumes "\<And>j. T_at T v j = (p, j)"
    and "heap w p = Some blk" and "length blk < unat n" and "unat i \<le> length blk"
  shows "touch_loop T v n i w = Inl Invalid_access"
  using assms
proof (induction T v n i w arbitrary: blk rule: touch_loop.induct)
  case (1 T v n i w)
  from "1.prems" have lt: "i < n" by (simp add: word_less_nat_alt)
  show ?case
  proof (cases "unat i < length blk")
    case True
    let ?blk1 = "blk[unat i := ucast i]"
    let ?w1 = "w\<lparr>heap := (heap w)(p \<mapsto> ?blk1)\<rparr>"
    have st: "store (T_at T v i) (ucast i) w = Inr ?w1"
      using "1.prems" True by (simp add: store_in_block)
    have suc: "unat (i + 1) = Suc (unat i)" using lt by (rule unat_inc)
    have "touch_loop T v n (i + 1) ?w1 = Inl Invalid_access"
      using "1.prems" True by (intro "1.IH"[OF lt st, of ?blk1]) (simp_all add: suc)
    then show ?thesis using lt st by (subst touch_loop.simps) simp
  next
    case False
    then have "store (T_at T v i) (ucast i) w = Inl Invalid_access"
      using "1.prems" by (simp add: store_def)
    then show ?thesis using lt by (subst touch_loop.simps) simp
  qed
qed

lemma slots_of_wrapped_request:
  assumes "2 ^ 62 \<le> unat n"
  shows "length (new_block (sizeof_int * n) f) < unat n"
proof -
  have "unat (sizeof_int * n) < 2 ^ 64"
    using unsigned_less [of "sizeof_int * n"] by simp
  then have "unat (sizeof_int * n) div 4 < 2 ^ 62" by simp
  then show ?thesis using assms by (simp add: new_block_def sizeof_int_def)
qed

lemma touch_then_sum_overrun:
  assumes at: "\<And>v j. T_at T v j = (data v, j)"
    and init: "T_init T n (T_new T) w0 = (v, w1)"
    and blk: "heap w1 (data v) = Some blk" "length blk < unat n"
  shows "touch_then_sum T n w0 = Inl Invalid_access"
proof -
  have "touch T v n w1 = Inl Invalid_access"
    unfolding touch_def using touch_loop_overrun [of T v "data v" w1 blk n 0] at blk by simp
  then show ?thesis by (simp add: touch_then_sum_def init)
qed

lemma mmap_vec_overrun:
  assumes "2 ^ 62 \<le> unat n" and "init_ok (mmap_vec sz ret) n w"
  shows "touch_then_sum (mmap_vec sz ret) n w = Inl Invalid_access"
proof -
  obtain w1 where init: "mmap_vec_init sz ret n mmap_vec_new w = (\<lparr>size_m = n, data = ret\<rparr>, w1)"
    and h: "heap w1 = (if ret = MAP_FAILED then heap w
                       else (heap w)(ret \<mapsto> new_block (sizeof_int * n) (\<lambda>k. 0)))"
    by (simp add: mmap_vec_init_eq)
  have ok: "ret \<noteq> MAP_FAILED"
    using assms(2) by (simp add: init_ok_def mmap_vec_def init mmap_vec_ok_def)
  show ?thesis
    by (rule touch_then_sum_overrun [where v = "\<lparr>size_m = n, data = ret\<rparr>" and ?w1.0 = w1
          and blk = "new_block (sizeof_int * n) (\<lambda>k. 0)"])
      (simp_all add: mmap_vec_def mmap_vec_at_def init h ok slots_of_wrapped_request [OF assms(1)])
qed

lemma vec_overrun:
  assumes "2 ^ 62 \<le> unat n" and "init_ok (vec r) n w"
  shows "touch_then_sum (vec r) n w = Inl Invalid_access"
proof -
  obtain w1 where init: "vec_init r n vec_new w = (\<lparr>size_m = n, data = reply_ptr r\<rparr>, w1)"
    and h: "heap w1 = (if reply_ptr r = nullptr then heap w
                       else (heap w)(reply_ptr r \<mapsto> new_block (sizeof_int * n) (reply_fill r)))"
    by (simp add: vec_init_eq)
  have ok: "reply_ptr r \<noteq> nullptr"
    using assms(2) by (simp add: init_ok_def vec_def init vec_ok_def)
  show ?thesis
    by (rule touch_then_sum_overrun [where v = "\<lparr>size_m = n, data = reply_ptr r\<rparr>" and ?w1.0 = w1
          and blk = "new_block (sizeof_int * n) (reply_fill r)"])
      (simp_all add: vec_def vec_at_def init h ok slots_of_wrapped_request [OF assms(1)])
qed

lemma hp_vec_overrun:
  assumes "2 ^ 62 \<le> unat n" and "init_ok (hp_vec rc r adv) n w"
  shows "touch_then_sum (hp_vec rc r adv) n w = Inl Invalid_access"
proof -
  have ok: "rc = 0" "reply_ptr r \<noteq> nullptr"
    using assms(2)
    by (simp_all add: init_ok_def hp_vec_def hp_vec_init_eq hp_vec_ok_def hp_vec_new_def
        split: if_splits)
  obtain w1 where init: "hp_vec_init rc r adv n hp_vec_new w = (\<lparr>size_m = n, data = reply_ptr r\<rparr>, w1)"
    and h: "heap w1 = (heap w)(reply_ptr r \<mapsto> new_block (sizeof_int * n) (reply_fill r))"
    using ok by (simp add: hp_vec_init_eq mult.commute)
  show ?thesis
    by (rule touch_then_sum_overrun [where v = "\<lparr>size_m = n, data = reply_ptr r\<rparr>" and ?w1.0 = w1
          and blk = "new_block (sizeof_int * n) (reply_fill r)"])
      (simp_all add: hp_vec_def hp_vec_at_def init h slots_of_wrapped_request [OF assms(1)])
qed

text \<open>The three classes, with any answers of the system.\<close>

lemma variants_touch_then_sum:
  assumes "T = mmap_vec sz ret \<or> T = hp_vec rc r adv \<or> T = vec r'"
    and "init_ok T n w"
  shows "unat n < 2 ^ 62 \<Longrightarrow>
           touch_then_sum T n w = Inr (\<Sum>k\<leftarrow>[0..<unat n]. scast (word_of_nat k :: c_int))"
    and "2 ^ 62 \<le> unat n \<Longrightarrow> touch_then_sum T n w = Inl Invalid_access"
  using assms
  by (auto simp: mmap_vec_touch_then_sum hp_vec_touch_then_sum vec_touch_then_sum
      mmap_vec_overrun hp_vec_overrun vec_overrun)

section \<open>Facts about the timer\<close>

lemma ms_Inl: "f (snd (now clk w)) = Inl e \<Longrightarrow> ms clk f w = Inl e"
  by (simp add: ms_def now_def)

lemma ms_Inr:
  "f (snd (now clk w)) = Inr (r, w2) \<Longrightarrow>
   ms clk f w = Inr ((clk (clock_reads w2) - clk (clock_reads w)) sdiv 1000000, r, snd (now clk w2))"
  by (simp add: ms_def now_def)

lemma now_world [simp]:
  "heap (snd (now clk w)) = heap w"
  "stdout (snd (now clk w)) = stdout w"
  "syscalls (snd (now clk w)) = syscalls w"
  "clock_reads (snd (now clk w)) = Suc (clock_reads w)"
  by (simp_all add: now_def)

lemma sdiv_truncates:
  fixes d :: int
  assumes "t = d sdiv 1000000"
  shows "\<bar>t\<bar> * 1000000 \<le> \<bar>d\<bar>" and "\<bar>d\<bar> < (\<bar>t\<bar> + 1) * 1000000" and "0 \<le> t * d"
proof -
  have abs_t: "\<bar>t\<bar> = \<bar>d\<bar> div 1000000"
    unfolding assms by (cases "d = 0") (simp_all add: signed_divide_int_def abs_mult)
  show "\<bar>t\<bar> * 1000000 \<le> \<bar>d\<bar>" unfolding abs_t by simp
  have "\<bar>d\<bar> = \<bar>d\<bar> div 1000000 * 1000000 + \<bar>d\<bar> mod 1000000" by simp
  moreover have "\<bar>d\<bar> mod 1000000 < 1000000" by simp
  ultimately show "\<bar>d\<bar> < (\<bar>t\<bar> + 1) * 1000000" unfolding abs_t by (simp add: algebra_simps)
  have "sgn d * d = \<bar>d\<bar>" by (simp add: abs_sgn mult.commute)
  moreover have "t * d = (sgn d * d) * (\<bar>d\<bar> div 1000000)"
    unfolding assms by (simp add: signed_divide_int_def mult_ac)
  ultimately have "t * d = \<bar>d\<bar> * (\<bar>d\<bar> div 1000000)" by simp
  also have "0 \<le> \<dots>" by (simp add: pos_imp_zdiv_nonneg_iff)
  finally show "0 \<le> t * d" .
qed

section \<open>A run of the driver\<close>

lemma run_bench_failure:
  assumes "\<not> init_ok T bench_size (snd (now clk w))"
  shows "run_bench clk T name w =
         Inr (println [] (println (name @ '' failed to allocate memory'')
               (snd (now clk (snd (T_init T bench_size (T_new T) (snd (now clk w))))))))"
proof -
  obtain v w1 where init: "T_init T bench_size (T_new T) (snd (now clk w)) = (v, w1)"
    by (cases "T_init T bench_size (T_new T) (snd (now clk w))")
  have "ms clk (\<lambda>w. Inr (T_init T bench_size (T_new T) w) :: fault + buffer \<times> world) w =
        Inr ((clk (clock_reads w1) - clk (clock_reads w)) sdiv 1000000, v, snd (now clk w1))"
    by (rule ms_Inr) (simp add: init)
  moreover have "\<not> T_ok T v" using assms by (simp add: init_ok_def init)
  ultimately show ?thesis by (simp add: run_bench_def init)
qed

lemma plus_as_Suc:
  "c + 3 = Suc (Suc (Suc c))"
  "c + 4 = Suc (Suc (Suc (Suc c)))"
  "c + 5 = Suc (Suc (Suc (Suc (Suc c))))"
  "c + 6 = Suc (Suc (Suc (Suc (Suc (Suc c)))))"
  "c + 7 = Suc (Suc (Suc (Suc (Suc (Suc (Suc c))))))"
  "c + 8 = Suc (Suc (Suc (Suc (Suc (Suc (Suc (Suc c)))))))"
  by simp_all

lemma now_tick: "snd (now clk w) = tick w"
  by (simp add: now_def tick_def)

lemma ms_elapsed:
  "f (tick w) = Inr (r, w2) \<Longrightarrow>
   ms clk f w = Inr (elapsed clk (clock_reads w) (clock_reads w2), r, tick w2)"
  using ms_Inr [of f clk w r w2] by (simp add: now_tick elapsed_def)

lemma run_bench_success:
  assumes ok: "init_ok T bench_size (tick w)"
    and init: "T_init T bench_size (T_new T) (tick w) = (v, w1)"
    and at: "\<And>v j. T_at T v j = (data v, j)"
    and sm: "\<And>v w. T_sum T v w = sum_loop v 0 0 w"
    and sz: "size_m v = bench_size"
    and blk: "heap w1 (data v) = Some blk" "length blk = unat bench_size"
    and fr: "T_free T v
               (w1\<lparr>clock_reads := clock_reads w1 + 6,
                   heap := (heap w1)(data v \<mapsto> touched blk 0 (unat bench_size)),
                   stdout := stdout w1 @ [name @ '' sum: '' @ show_size_t bench_sum]\<rparr>) = Inr wi"
  shows "run_bench clk T name w =
         Inr ((tick wi)
               \<lparr>stdout := stdout wi @
                  [name @ '' time alloc: '' @
                     show_long (elapsed clk (clock_reads w) (clock_reads w1)) @ '' ms'',
                   name @ '' time touch: '' @
                     show_long (elapsed clk (clock_reads w1 + 1) (clock_reads w1 + 2)) @ '' ms'',
                   name @ '' time sum: '' @
                     show_long (elapsed clk (clock_reads w1 + 3) (clock_reads w1 + 4)) @ '' ms'',
                   name @ '' time free: '' @
                     show_long (elapsed clk (clock_reads w1 + 5) (clock_reads wi)) @ '' ms'',
                   []]\<rparr>)"
proof -
  let ?n = bench_size
  \<comment> \<open>the allocation phase\<close>
  have alloc: "ms clk (\<lambda>w. Inr (T_init T ?n (T_new T) w) :: fault + buffer \<times> world) w =
               Inr (elapsed clk (clock_reads w) (clock_reads w1), v, tick w1)"
    by (rule ms_elapsed) (simp add: init)
  have okv: "T_ok T v" using ok by (simp add: init_ok_def init)
  \<comment> \<open>the touch phase\<close>
  define blk2 where "blk2 = touched blk 0 (unat ?n)"
  define wb where "wb = tick (tick w1)"
  define wc where "wc = wb\<lparr>heap := (heap wb)(data v \<mapsto> blk2)\<rparr>"
  have hb: "heap wb (data v) = Some blk" by (simp add: wb_def tick_def blk)
  have "touch T v ?n wb = Inr wc"
    unfolding touch_def wc_def blk2_def
    using touch_loop_run [of T v "data v" wb blk ?n 0] at hb blk by simp
  then have "(\<lambda>w. void (touch T v ?n w)) (tick (tick w1)) = Inr ((), wc)"
    by (simp add: void_def wb_def)
  from ms_elapsed [of "\<lambda>w. void (touch T v ?n w)" "tick w1" "()" wc clk, OF this]
  have touch: "ms clk (\<lambda>w. void (touch T v ?n w)) (tick w1) =
               Inr (elapsed clk (clock_reads w1 + 1) (clock_reads w1 + 2), (), tick wc)"
    by (simp add: wc_def wb_def tick_def plus_as_Suc)
  \<comment> \<open>the sum phase\<close>
  define we where "we = tick (tick wc)"
  have he: "heap we (data v) = Some blk2" by (simp add: we_def wc_def tick_def)
  have len2: "length blk2 = unat ?n" by (simp add: blk2_def touched_def blk)
  have "sum_loop v 0 0 we = Inr (0 + (\<Sum>k\<leftarrow>[unat (0::size_t)..<unat (size_m v)]. scast (blk2 ! k)))"
    by (rule sum_loop_run) (simp_all add: sz he len2)
  moreover have "(\<Sum>k\<leftarrow>[0..<unat ?n]. (scast (blk2 ! k) :: size_t)) =
                 (\<Sum>k\<leftarrow>[0..<unat ?n]. scast (word_of_nat k :: c_int))"
    unfolding blk2_def
    by (rule arg_cong [where f = sum_list], rule map_cong) (simp_all add: touched_nth blk)
  ultimately have s: "T_sum T v we = Inr bench_sum"
    by (simp add: sm sz bench_total bench_sum_def)
  define wf where "wf = println (name @ '' sum: '' @ show_size_t bench_sum) we"
  have "(\<lambda>w. void (print_sum T v name w)) (tick (tick wc)) = Inr ((), wf)"
    by (simp add: void_def print_sum_def s wf_def flip: we_def)
  from ms_elapsed [of "\<lambda>w. void (print_sum T v name w)" "tick wc" "()" wf clk, OF this]
  have sum: "ms clk (\<lambda>w. void (print_sum T v name w)) (tick wc) =
             Inr (elapsed clk (clock_reads w1 + 3) (clock_reads w1 + 4), (), tick wf)"
    by (simp add: wf_def println_def we_def wc_def wb_def tick_def plus_as_Suc)
  \<comment> \<open>the release phase\<close>
  have wh: "tick (tick wf) =
            w1\<lparr>clock_reads := clock_reads w1 + 6,
               heap := (heap w1)(data v \<mapsto> touched blk 0 (unat ?n)),
               stdout := stdout w1 @ [name @ '' sum: '' @ show_size_t bench_sum]\<rparr>"
    by (simp add: wf_def println_def we_def wc_def wb_def blk2_def tick_def plus_as_Suc)
  have "(\<lambda>w. void (T_free T v w)) (tick (tick wf)) = Inr ((), wi)"
    using fr by (simp add: void_def wh)
  from ms_elapsed [of "\<lambda>w. void (T_free T v w)" "tick wf" "()" wi clk, OF this]
  have release: "ms clk (\<lambda>w. void (T_free T v w)) (tick wf) =
                 Inr (elapsed clk (clock_reads w1 + 5) (clock_reads wi), (), tick wi)"
    by (simp add: wf_def println_def we_def wc_def wb_def tick_def plus_as_Suc)
  have "run_bench clk T name w =
        Inr (println []
            (println (name @ '' time free: '' @
               show_long (elapsed clk (clock_reads w1 + 5) (clock_reads wi)) @ '' ms'')
            (println (name @ '' time sum: '' @
               show_long (elapsed clk (clock_reads w1 + 3) (clock_reads w1 + 4)) @ '' ms'')
            (println (name @ '' time touch: '' @
               show_long (elapsed clk (clock_reads w1 + 1) (clock_reads w1 + 2)) @ '' ms'')
            (println (name @ '' time alloc: '' @
               show_long (elapsed clk (clock_reads w) (clock_reads w1)) @ '' ms'')
             (tick wi))))))"
    unfolding run_bench_def by (simp add: alloc okv touch sum release)
  then show ?thesis by (simp add: println_def tick_def)
qed

lemma bench_size_small: "unat bench_size < 2 ^ 62"
  by (simp add: bench_size_def)

lemma mmap_vec_failed_run:
  assumes "\<not> init_ok (mmap_vec sz ret) bench_size (snd (now clk w))"
  shows "run_bench clk (mmap_vec sz ret) name w =
         Inr (failed_run name [Sys_mmap_hugetlb sz (sizeof_int * bench_size)] w)"
proof -
  have "ret = MAP_FAILED"
    using assms by (simp add: init_ok_def mmap_vec_def mmap_vec_init_eq mmap_vec_ok_def)
  then show ?thesis
    unfolding run_bench_failure [OF assms]
    by (simp add: mmap_vec_def mmap_vec_init_eq failed_run_def println_def now_def)
qed

lemma vec_failed_run:
  assumes "\<not> init_ok (vec r) bench_size (snd (now clk w))"
  shows "run_bench clk (vec r) name w =
         Inr (failed_run name [Sys_malloc (sizeof_int * bench_size)] w)"
proof -
  have "reply_ptr r = nullptr"
    using assms by (simp add: init_ok_def vec_def vec_init_eq vec_ok_def)
  then show ?thesis
    unfolding run_bench_failure [OF assms]
    by (simp add: vec_def vec_init_eq failed_run_def println_def now_def)
qed

lemma hp_vec_failed_run:
  assumes "\<not> init_ok (hp_vec rc r adv) bench_size (snd (now clk w))"
  shows "run_bench clk (hp_vec rc r adv) name w =
         Inr (failed_run name
               [Sys_posix_memalign 2097152 (bench_size * sizeof_int),
                Sys_madvise_hugepage nullptr (sizeof_int * bench_size)] w)"
proof -
  have "rc \<noteq> 0 \<or> reply_ptr r = nullptr"
    using assms
    by (auto simp add: init_ok_def hp_vec_def hp_vec_init_eq hp_vec_ok_def)
  then show ?thesis
    unfolding run_bench_failure [OF assms]
    by (auto simp add: hp_vec_def hp_vec_init_eq hp_vec_new_def failed_run_def println_def now_def)
qed

lemma bench_len: "unat (sizeof_int * bench_size) = 68719476736"
  by (simp add: sizeof_int_def bench_size_def)

lemma vec_run: "run_bench clk (vec r) name w = Inr (malloc_run clk r name w)"
proof (cases "malloc_succeeded r")
  case False
  then have "\<not> init_ok (vec r) bench_size (snd (now clk w))"
    by (simp add: init_ok_def vec_def vec_init_eq vec_ok_def malloc_succeeded_def)
  from vec_failed_run [OF this] False show ?thesis by (simp add: malloc_run_def)
next
  case True
  then have p: "reply_ptr r \<noteq> nullptr" by (simp add: malloc_succeeded_def)
  let ?p = "reply_ptr r"
  let ?len = "sizeof_int * bench_size"
  let ?blk = "new_block ?len (reply_fill r)"
  let ?w1 = "(tick w)\<lparr>syscalls := syscalls w @ [Sys_malloc ?len], heap := (heap w)(?p \<mapsto> ?blk)\<rparr>"
  let ?wi = "w\<lparr>clock_reads := clock_reads w + 7,
               heap := (heap w)(?p := None),
               stdout := stdout w @ [name @ '' sum: '' @ show_size_t bench_sum],
               syscalls := syscalls w @ [Sys_malloc ?len, Sys_free ?p]\<rparr>"
  have "run_bench clk (vec r) name w =
         Inr ((tick ?wi)
               \<lparr>stdout := stdout ?wi @
                  [name @ '' time alloc: '' @
                     show_long (elapsed clk (clock_reads w) (clock_reads ?w1)) @ '' ms'',
                   name @ '' time touch: '' @
                     show_long (elapsed clk (clock_reads ?w1 + 1) (clock_reads ?w1 + 2)) @ '' ms'',
                   name @ '' time sum: '' @
                     show_long (elapsed clk (clock_reads ?w1 + 3) (clock_reads ?w1 + 4)) @ '' ms'',
                   name @ '' time free: '' @
                     show_long (elapsed clk (clock_reads ?w1 + 5) (clock_reads ?wi)) @ '' ms'',
                   []]\<rparr>)"
    by (rule run_bench_success [where v = "\<lparr>size_m = bench_size, data = ?p\<rparr>" and blk = ?blk])
      (simp_all add: init_ok_def vec_def vec_at_def vec_sum_def vec_free_def vec_ok_def
        vec_init_eq os_free_def request_def tick_def p slots_of_request [OF bench_size_small]
        plus_as_Suc)
  then show ?thesis
    by (simp add: malloc_run_def True good_run_def tick_def plus_as_Suc)
qed

lemma hp_vec_run: "run_bench clk (hp_vec rc r adv) name w = Inr (thp_run clk rc r name w)"
proof (cases "memalign_succeeded rc r")
  case False
  then have "\<not> init_ok (hp_vec rc r adv) bench_size (snd (now clk w))"
    by (auto simp add: init_ok_def hp_vec_def hp_vec_init_eq hp_vec_ok_def hp_vec_new_def
        memalign_succeeded_def)
  from hp_vec_failed_run [OF this] False show ?thesis by (simp add: thp_run_def)
next
  case True
  then have p: "rc = 0" "reply_ptr r \<noteq> nullptr" by (simp_all add: memalign_succeeded_def)
  have c: "bench_size * sizeof_int = sizeof_int * bench_size" by (rule mult.commute)
  let ?p = "reply_ptr r"
  let ?len = "sizeof_int * bench_size"
  let ?blk = "new_block ?len (reply_fill r)"
  let ?w1 = "(tick w)\<lparr>syscalls := syscalls w @
                 [Sys_posix_memalign 2097152 (bench_size * sizeof_int), Sys_madvise_hugepage ?p ?len],
               heap := (heap w)(?p \<mapsto> ?blk)\<rparr>"
  let ?wi = "w\<lparr>clock_reads := clock_reads w + 7,
               heap := (heap w)(?p := None),
               stdout := stdout w @ [name @ '' sum: '' @ show_size_t bench_sum],
               syscalls := syscalls w @
                 [Sys_posix_memalign 2097152 (bench_size * sizeof_int), Sys_madvise_hugepage ?p ?len,
                  Sys_free ?p]\<rparr>"
  have "run_bench clk (hp_vec rc r adv) name w =
         Inr ((tick ?wi)
               \<lparr>stdout := stdout ?wi @
                  [name @ '' time alloc: '' @
                     show_long (elapsed clk (clock_reads w) (clock_reads ?w1)) @ '' ms'',
                   name @ '' time touch: '' @
                     show_long (elapsed clk (clock_reads ?w1 + 1) (clock_reads ?w1 + 2)) @ '' ms'',
                   name @ '' time sum: '' @
                     show_long (elapsed clk (clock_reads ?w1 + 3) (clock_reads ?w1 + 4)) @ '' ms'',
                   name @ '' time free: '' @
                     show_long (elapsed clk (clock_reads ?w1 + 5) (clock_reads ?wi)) @ '' ms'',
                   []]\<rparr>)"
    by (rule run_bench_success [where v = "\<lparr>size_m = bench_size, data = ?p\<rparr>" and blk = ?blk])
      (simp_all add: init_ok_def hp_vec_def hp_vec_at_def hp_vec_sum_def hp_vec_free_def
        hp_vec_ok_def hp_vec_init_eq os_free_def request_def tick_def p c
        slots_of_request [OF bench_size_small] plus_as_Suc)
  then show ?thesis
    by (simp add: thp_run_def True good_run_def tick_def plus_as_Suc c)
qed

lemma mmap_vec_run:
  assumes "2 ^ nat sz dvd (68719476736 :: nat)"
  shows "run_bench clk (mmap_vec sz ret) name w = Inr (mmap_run clk sz ret name w)"
proof (cases "mmap_succeeded ret")
  case False
  then have "\<not> init_ok (mmap_vec sz ret) bench_size (snd (now clk w))"
    by (simp add: init_ok_def mmap_vec_def mmap_vec_init_eq mmap_vec_ok_def mmap_succeeded_def)
  from mmap_vec_failed_run [OF this] False show ?thesis by (simp add: mmap_run_def)
next
  case True
  then have p: "ret \<noteq> MAP_FAILED" by (simp add: mmap_succeeded_def)
  have len0: "sizeof_int * bench_size \<noteq> 0" by (simp add: sizeof_int_def bench_size_def)
  let ?len = "sizeof_int * bench_size"
  let ?blk = "new_block ?len (\<lambda>k. 0)"
  let ?w1 = "(tick w)\<lparr>syscalls := syscalls w @ [Sys_mmap_hugetlb sz ?len],
               heap := (heap w)(ret \<mapsto> ?blk)\<rparr>"
  let ?wi = "w\<lparr>clock_reads := clock_reads w + 7,
               heap := (heap w)(ret := None),
               stdout := stdout w @ [name @ '' sum: '' @ show_size_t bench_sum],
               syscalls := syscalls w @ [Sys_mmap_hugetlb sz ?len, Sys_munmap ret ?len]\<rparr>"
  have "run_bench clk (mmap_vec sz ret) name w =
         Inr ((tick ?wi)
               \<lparr>stdout := stdout ?wi @
                  [name @ '' time alloc: '' @
                     show_long (elapsed clk (clock_reads w) (clock_reads ?w1)) @ '' ms'',
                   name @ '' time touch: '' @
                     show_long (elapsed clk (clock_reads ?w1 + 1) (clock_reads ?w1 + 2)) @ '' ms'',
                   name @ '' time sum: '' @
                     show_long (elapsed clk (clock_reads ?w1 + 3) (clock_reads ?w1 + 4)) @ '' ms'',
                   name @ '' time free: '' @
                     show_long (elapsed clk (clock_reads ?w1 + 5) (clock_reads ?wi)) @ '' ms'',
                   []]\<rparr>)"
    by (rule run_bench_success [where v = "\<lparr>size_m = bench_size, data = ret\<rparr>" and blk = ?blk])
      (simp_all add: init_ok_def mmap_vec_def mmap_vec_at_def mmap_vec_sum_def mmap_vec_free_def
        mmap_vec_ok_def mmap_vec_init_eq os_munmap_def request_def tick_def p len0 bench_len assms
        slots_of_request [OF bench_size_small] plus_as_Suc)
  then show ?thesis
    by (simp add: mmap_run_def True good_run_def tick_def plus_as_Suc)
qed

lemma timed_run:
  assumes "run_bench clk T name (tick w) = Inr b"
  shows "ms clk (\<lambda>w. void (run_bench clk T name w)) w =
         Inr (elapsed clk (clock_reads w) (clock_reads b), (), tick b)"
  by (rule ms_elapsed) (simp add: void_def assms)

text \<open>The definitions that a run on concrete inputs unfolds.\<close>

lemmas run_defs = Let_def thp_run_def mmap_run_def malloc_run_def failed_run_def good_run_def
  main_report_def tick_def elapsed_def even_clock_def boot_def memalign_succeeded_def
  mmap_succeeded_def malloc_succeeded_def show_long_def show_size_t_def bench_sum_def
  sizeof_int_def bench_size_def nullptr_def MAP_FAILED_def block_at_def signed_divide_int_def

section \<open>The properties\<close>

text \<open>
  C10: on a default-constructed buffer, before any \<open>init()\<close>, \<open>ok()\<close> is true for
  \<open>mmap_vec\<close> (the null pointer is not the sentinel \<open>MAP_FAILED\<close>) and false for
  \<open>hp_vec\<close> and \<open>vec\<close> (which compare with the null pointer).
\<close>

theorem ok_before_init:
  "mmap_vec_ok mmap_vec_new \<and> \<not> hp_vec_ok hp_vec_new \<and> \<not> vec_ok vec_new"
  by (simp add: mmap_vec_ok_def mmap_vec_new_def hp_vec_ok_def hp_vec_new_def
      vec_ok_def vec_new_def MAP_FAILED_def nullptr_def)

text \<open>
  C8: when the mapping of \<open>mmap_vec::init(n)\<close> fails, \<open>data\<close> holds the sentinel
  \<open>MAP_FAILED\<close> and \<open>size\<close> still holds the requested \<open>n\<close>, whatever the buffer held
  before; no block is created.
\<close>

theorem mmap_vec_failed_init_keeps_size:
  "fst (mmap_vec_init sz MAP_FAILED n v w) = \<lparr>size_m = n, data = MAP_FAILED\<rparr> \<and>
   heap (snd (mmap_vec_init sz MAP_FAILED n v w)) = heap w"
  by (simp add: mmap_vec_init_eq)

text \<open>
  C4: the buffer that \<open>hp_vec::init\<close> leaves does not depend on the answer of
  \<open>madvise\<close> (\<open>adv\<close> or \<open>adv'\<close>), and it is \<open>ok()\<close> whenever \<open>posix_memalign\<close>
  succeeded, from any earlier state of the buffer.
\<close>

theorem hp_vec_ok_whatever_madvise_answers:
  "fst (hp_vec_init rc r adv n v w) = fst (hp_vec_init rc r adv' n v w) \<and>
   (memalign_succeeded rc r \<longrightarrow> hp_vec_ok (fst (hp_vec_init rc r adv n v w)))"
  by (simp add: hp_vec_init_eq memalign_succeeded_def hp_vec_ok_def)

text \<open>The allocation succeeds and \<open>madvise\<close> fails with -1: the buffer is \<open>ok()\<close>.\<close>

theorem hp_vec_ok_whatever_madvise_answers_witness:
  "hp_vec_ok (fst (hp_vec_init 0 (block_at 2097152) (- 1) 1024 hp_vec_new boot))"
proof -
  have "memalign_succeeded 0 (block_at 2097152)"
    by (simp add: memalign_succeeded_def block_at_def nullptr_def)
  with hp_vec_ok_whatever_madvise_answers [of 0 "block_at 2097152" "- 1" 1024 hp_vec_new boot 0]
  show ?thesis by blast
qed

text \<open>
  Where \<open>ok()\<close> right after \<open>init()\<close> tells whether the allocation succeeded: for
  \<open>mmap_vec\<close> and \<open>vec\<close> from any earlier state of the buffer; for \<open>hp_vec\<close> after a
  successful \<open>init()\<close> from any earlier state, and after a failed one when \<open>data\<close> was
  null before, as it is in a newly constructed buffer. \<open>mmap_vec::ok\<close> is the comparison
  of \<open>data\<close> with \<open>MAP_FAILED\<close>; \<open>init\<close> raises nothing (its result type has no
  fault).
\<close>

lemma ok_after_init:
  "mmap_vec_ok (fst (mmap_vec_init sz ret n v w)) = mmap_succeeded ret \<and>
   vec_ok (fst (vec_init r n v w)) = malloc_succeeded r \<and>
   (data v = nullptr \<longrightarrow>
      hp_vec_ok (fst (hp_vec_init rc r adv n v w)) = memalign_succeeded rc r) \<and>
   (memalign_succeeded rc r \<longrightarrow> hp_vec_ok (fst (hp_vec_init rc r adv n v w))) \<and>
   mmap_vec_ok v = (data v \<noteq> MAP_FAILED)"
  by (auto simp add: mmap_vec_init_eq vec_init_eq hp_vec_init_eq mmap_vec_ok_def vec_ok_def
      hp_vec_ok_def mmap_succeeded_def malloc_succeeded_def memalign_succeeded_def)


text \<open>
  C1, as the code has it: for each of the three classes and every \<open>n\<close> up to \<open>2^31\<close>,
  after an \<open>init(n)\<close> that leaves the buffer \<open>ok()\<close> and the touch pass over
  \<open>[0, n)\<close>, \<open>sum()\<close> returns \<open>n * (n - 1) / 2\<close>, read as an unsigned integer
  (nothing wraps around).
\<close>

theorem sum_after_touch_is_gauss:
  assumes "T = mmap_vec sz ret \<or> T = hp_vec rc r adv \<or> T = vec r'"
    and "init_ok T n w"
    and "unat n \<le> 2 ^ 31"
  shows "\<exists>s. touch_then_sum T n w = Inr s \<and> unat s = unat n * (unat n - 1) div 2"
proof -
  from assms(3) have "unat n < 2 ^ 62" by simp
  with assms(1,2)
  have "touch_then_sum T n w = Inr (\<Sum>k\<leftarrow>[0..<unat n]. scast (word_of_nat k :: c_int))"
    by (rule variants_touch_then_sum(1))
  then have "touch_then_sum T n w = Inr (word_of_nat (unat n * (unat n - 1) div 2))"
    by (simp only: sum_small_values [OF assms(3)])
  then show ?thesis using gauss_fits [OF assms(3)] by blast
qed

text \<open>\<open>mmap_vec<21>\<close> with a mapping at 2097152 and \<open>n = 4\<close>: the sum is 6.\<close>

theorem sum_after_touch_is_gauss_witness:
  "\<exists>s. touch_then_sum (mmap_vec 21 2097152) 4 boot = Inr s \<and> unat s = 6"
proof -
  have "init_ok (mmap_vec 21 2097152) 4 boot"
    by (simp add: init_ok_def mmap_vec_def mmap_vec_init_eq mmap_vec_ok_def MAP_FAILED_def)
  from sum_after_touch_is_gauss [OF _ this, of 21 2097152 0 "block_at 0" 0 "block_at 0"]
  show ?thesis by simp
qed

text \<open>
  C1 as stated fails above \<open>2^31\<close>: slot \<open>2^31\<close> holds \<open>static_cast<int>(2^31)\<close>, which
  is \<open>-2^31\<close>, and \<open>sum()\<close> adds it sign-extended. For \<open>vec\<close> and
  \<open>n = 2^31 + 1 = 2147483649\<close> the sum is \<open>2305843005992468480\<close>, not
  \<open>n * (n - 1) / 2 = 2305843010287435776\<close>.
\<close>

theorem sum_after_touch_counterexample:
  "init_ok (vec (block_at 4096)) 2147483649 boot \<and>
   touch_then_sum (vec (block_at 4096)) 2147483649 boot = Inr 2305843005992468480 \<and>
   unat (2305843005992468480 :: size_t) \<noteq> 2147483649 * (2147483649 - 1) div 2"
proof -
  have ok: "init_ok (vec (block_at 4096)) 2147483649 boot"
    by (simp add: init_ok_def vec_def vec_init_eq vec_ok_def block_at_def nullptr_def)
  have n: "unat (2147483649 :: size_t) = Suc 2147483648" by simp
  have "touch_then_sum (vec (block_at 4096)) 2147483649 boot =
        Inr (\<Sum>k\<leftarrow>[0..<unat (2147483649 :: size_t)]. scast (word_of_nat k :: c_int))"
    using ok by (intro vec_touch_then_sum) simp_all
  also have "(\<Sum>k\<leftarrow>[0..<unat (2147483649 :: size_t)]. (scast (word_of_nat k :: c_int) :: size_t)) =
        (\<Sum>k\<leftarrow>[0..<2147483648]. scast (word_of_nat k :: c_int)) + scast (word_of_nat 2147483648 :: c_int)"
    unfolding n by (simp only: upt_Suc_append [OF le0] map_append sum_list_append list.map sum_list.Cons sum_list.Nil add_0_right)
  also have "(\<Sum>k\<leftarrow>[0..<2147483648]. (scast (word_of_nat k :: c_int) :: size_t)) =
        word_of_nat (2147483648 * (2147483648 - 1) div 2)"
    by (rule sum_small_values) simp
  also have "(scast (word_of_nat 2147483648 :: c_int) :: size_t) = - 2147483648"
    by (simp add: scast_of_nat32 sign_extend32_def)
  finally have "touch_then_sum (vec (block_at 4096)) 2147483649 boot = Inr 2305843005992468480"
    by simp
  with ok show ?thesis by simp
qed

text \<open>
  C2: for \<open>vec\<close>, after a successful \<open>init(1024)\<close> and the touch pass over
  \<open>[0, 1024)\<close>, \<open>sum()\<close> returns 523776, whatever the new block held.
\<close>

theorem vec_sum_1024:
  assumes "malloc_succeeded r"
  shows "touch_then_sum (vec r) 1024 w = Inr 523776"
proof -
  have "init_ok (vec r) 1024 w"
    using assms by (simp add: init_ok_def vec_def vec_init_eq vec_ok_def malloc_succeeded_def)
  then have "touch_then_sum (vec r) 1024 w =
             Inr (\<Sum>k\<leftarrow>[0..<unat (1024 :: size_t)]. scast (word_of_nat k :: c_int))"
    by (intro vec_touch_then_sum) simp_all
  also have "(\<Sum>k\<leftarrow>[0..<unat (1024 :: size_t)]. (scast (word_of_nat k :: c_int) :: size_t)) =
             word_of_nat (unat (1024 :: size_t) * (unat (1024 :: size_t) - 1) div 2)"
    by (rule sum_small_values) simp
  finally show ?thesis by simp
qed

text \<open>\<open>malloc\<close> answers with a block at 4096.\<close>

theorem vec_sum_1024_witness:
  "touch_then_sum (vec (block_at 4096)) 1024 boot = Inr 523776"
proof -
  have "malloc_succeeded (block_at 4096)"
    by (simp add: malloc_succeeded_def block_at_def nullptr_def)
  then show ?thesis by (rule vec_sum_1024)
qed

text \<open>
  C9: for each of the three classes, after an \<open>init(n)\<close> that leaves the buffer
  \<open>ok()\<close> and the touch pass, \<open>sum()\<close> is the sum modulo \<open>2^64\<close>, over \<open>k\<close> in
  \<open>[0, n)\<close>, of \<open>k mod 2^32\<close> read as a signed 32-bit integer. The touch pass and
  \<open>sum()\<close> return this value whenever \<open>sizeof(int) * n\<close> does not wrap around
  (\<open>n < 2^62\<close>), and whenever they return a value at all it is this one. The value stored
  in slot \<open>i\<close> is \<open>static_cast<int>(i)\<close>, which reads as the low 32 bits of \<open>i\<close>
  with bit 31 as the sign; \<open>sum()\<close> widens a stored \<open>x\<close> to its signed value modulo
  \<open>2^64\<close>.
\<close>

theorem sum_after_touch_sign_extended:
  assumes "T = mmap_vec sz ret \<or> T = hp_vec rc r adv \<or> T = vec r'"
    and "init_ok T n w"
  shows "(unat n < 2 ^ 62 \<longrightarrow>
            touch_then_sum T n w =
              Inr (word_of_int (\<Sum>k = 0..<unat n. sign_extend32 (int k mod 2 ^ 32)))) \<and>
         (\<forall>s. touch_then_sum T n w = Inr s \<longrightarrow>
            s = word_of_int (\<Sum>k = 0..<unat n. sign_extend32 (int k mod 2 ^ 32))) \<and>
         sint (ucast i :: c_int) = sign_extend32 (uint (i :: size_t) mod 2 ^ 32) \<and>
         (scast (x :: c_int) :: size_t) = word_of_int (sint x)"
proof -
  have a: "touch_then_sum T n w =
             Inr (word_of_int (\<Sum>k = 0..<unat n. sign_extend32 (int k mod 2 ^ 32)))"
    if "unat n < 2 ^ 62"
    using variants_touch_then_sum(1) [OF assms that] by (simp only: sum_signed_values)
  have b: "s = word_of_int (\<Sum>k = 0..<unat n. sign_extend32 (int k mod 2 ^ 32))"
    if "touch_then_sum T n w = Inr s" for s
  proof (cases "unat n < 2 ^ 62")
    case True
    from a [OF True] that show ?thesis by simp
  next
    case False
    then have "2 ^ 62 \<le> unat n" by simp
    from variants_touch_then_sum(2) [OF assms this] that show ?thesis by simp
  qed
  have "sint (ucast i :: c_int) = sint (word_of_nat (unat i) :: c_int)" by simp
  also have "\<dots> = sign_extend32 (int (unat i) mod 2 ^ 32)" by (rule sint_of_nat32)
  finally have c: "sint (ucast i :: c_int) = sign_extend32 (uint i mod 2 ^ 32)" by simp
  have d: "(scast x :: size_t) = word_of_int (sint x)" by simp
  from a b c d show ?thesis by blast
qed

text \<open>
  \<open>hp_vec\<close> with \<open>n = 3\<close>: the sum is \<open>0 + 1 + 2\<close>; and the index \<open>2^32 - 1\<close> is
  stored as -1.
\<close>

theorem sum_after_touch_sign_extended_witness:
  "touch_then_sum (hp_vec 0 (block_at 2097152) 0) 3 boot = Inr 3 \<and>
   sint (ucast (4294967295 :: size_t) :: c_int) = - 1"
proof -
  have ok: "init_ok (hp_vec 0 (block_at 2097152) 0) 3 boot"
    by (simp add: init_ok_def hp_vec_def hp_vec_init_eq hp_vec_ok_def block_at_def nullptr_def)
  have lt: "unat (3 :: size_t) < 2 ^ 62" by simp
  have u3: "unat (3 :: size_t) = Suc (Suc (Suc 0))" by simp
  have s: "(\<Sum>k = 0..<unat (3 :: size_t). sign_extend32 (int k mod 2 ^ 32)) = 3"
    unfolding u3 by (simp add: sign_extend32_def)
  note t = sum_after_touch_sign_extended [OF _ ok, of 0 0 0 "block_at 2097152" 0 "block_at 0" 4294967295 0]
  from t lt have "touch_then_sum (hp_vec 0 (block_at 2097152) 0) 3 boot =
      Inr (word_of_int (\<Sum>k = 0..<unat (3 :: size_t). sign_extend32 (int k mod 2 ^ 32)))"
    by blast
  then have a: "touch_then_sum (hp_vec 0 (block_at 2097152) 0) 3 boot = Inr 3"
    by (simp only: s word_of_int_numeral)
  from t have "sint (ucast (4294967295 :: size_t) :: c_int) =
      sign_extend32 (uint (4294967295 :: size_t) mod 2 ^ 32)"
    by blast
  then have b: "sint (ucast (4294967295 :: size_t) :: c_int) = - 1"
    by (simp add: sign_extend32_def)
  from a b show ?thesis by (rule conjI)
qed

text \<open>
  C5: for each of the three classes, when the buffer is not \<open>ok()\<close> after \<open>init\<close>,
  \<open>run_bench\<close> returns a world that differs from the one it started in only by the two
  clock readings around \<open>init\<close>, the requests of \<open>init\<close> itself, and two lines of
  output: the failure notice and an empty line. So the memory is as \<open>init\<close> left it (no
  touch pass), nothing is released (no \<open>munmap\<close> or \<open>free\<close> request), and no sum or
  timing line is printed.
\<close>

theorem run_bench_alloc_failure:
  "(\<not> init_ok (mmap_vec sz ret) bench_size (snd (now clk w)) \<longrightarrow>
      run_bench clk (mmap_vec sz ret) name w =
        Inr (failed_run name [Sys_mmap_hugetlb sz (sizeof_int * bench_size)] w)) \<and>
   (\<not> init_ok (hp_vec rc r adv) bench_size (snd (now clk w)) \<longrightarrow>
      run_bench clk (hp_vec rc r adv) name w =
        Inr (failed_run name
              [Sys_posix_memalign 2097152 (bench_size * sizeof_int),
               Sys_madvise_hugepage nullptr (sizeof_int * bench_size)] w)) \<and>
   (\<not> init_ok (vec r') bench_size (snd (now clk w)) \<longrightarrow>
      run_bench clk (vec r') name w =
        Inr (failed_run name [Sys_malloc (sizeof_int * bench_size)] w))"
  using mmap_vec_failed_run hp_vec_failed_run vec_failed_run by blast

text \<open>
  The three allocations fail, with the clock at 1.5 ms per reading: \<open>mmap\<close> answers
  \<open>MAP_FAILED\<close>, \<open>posix_memalign\<close> answers \<open>ENOMEM\<close>, \<open>malloc\<close> answers null.
\<close>

theorem run_bench_alloc_failure_witness:
  "run_bench even_clock (mmap_vec 30 MAP_FAILED) ''1gb_hp'' boot =
     Inr (boot\<lparr>clock_reads := 2,
               stdout := [''1gb_hp failed to allocate memory'', ''''],
               syscalls := [Sys_mmap_hugetlb 30 68719476736]\<rparr>) \<and>
   run_bench even_clock (hp_vec 12 (block_at 0) 0) ''thp'' boot =
     Inr (boot\<lparr>clock_reads := 2,
               stdout := [''thp failed to allocate memory'', ''''],
               syscalls := [Sys_posix_memalign 2097152 68719476736,
                            Sys_madvise_hugepage 0 68719476736]\<rparr>) \<and>
   run_bench even_clock (vec (block_at 0)) ''malloc'' boot =
     Inr (boot\<lparr>clock_reads := 2,
               stdout := [''malloc failed to allocate memory'', ''''],
               syscalls := [Sys_malloc 68719476736]\<rparr>)"
proof -
  have a: "\<not> init_ok (mmap_vec 30 MAP_FAILED) bench_size (snd (now even_clock boot))"
    by (simp add: init_ok_def mmap_vec_def mmap_vec_init_eq mmap_vec_ok_def)
  have b: "\<not> init_ok (hp_vec 12 (block_at 0) 0) bench_size (snd (now even_clock boot))"
    by (simp add: init_ok_def hp_vec_def hp_vec_init_eq hp_vec_ok_def hp_vec_new_def)
  have c: "\<not> init_ok (vec (block_at 0)) bench_size (snd (now even_clock boot))"
    by (simp add: init_ok_def vec_def vec_init_eq vec_ok_def block_at_def nullptr_def)
  from run_bench_alloc_failure
    [of 30 MAP_FAILED even_clock boot "''1gb_hp''" 12 "block_at 0" 0 "block_at 0"] a
  have "run_bench even_clock (mmap_vec 30 MAP_FAILED) ''1gb_hp'' boot =
        Inr (failed_run ''1gb_hp'' [Sys_mmap_hugetlb 30 (sizeof_int * bench_size)] boot)"
    by blast
  moreover
  from run_bench_alloc_failure
    [of 30 MAP_FAILED even_clock boot "''thp''" 12 "block_at 0" 0 "block_at 0"] b
  have "run_bench even_clock (hp_vec 12 (block_at 0) 0) ''thp'' boot =
        Inr (failed_run ''thp''
              [Sys_posix_memalign 2097152 (bench_size * sizeof_int),
               Sys_madvise_hugepage nullptr (sizeof_int * bench_size)] boot)"
    by blast
  moreover
  from run_bench_alloc_failure
    [of 30 MAP_FAILED even_clock boot "''malloc''" 12 "block_at 0" 0 "block_at 0"] c
  have "run_bench even_clock (vec (block_at 0)) ''malloc'' boot =
        Inr (failed_run ''malloc'' [Sys_malloc (sizeof_int * bench_size)] boot)"
    by blast
  ultimately show ?thesis
    by (simp add: failed_run_def boot_def sizeof_int_def bench_size_def nullptr_def)
qed

text \<open>
  C6: whatever the system answers to the four allocations, \<open>main\<close> runs the driver
  once for each variant, in the order \<open>thp\<close>, \<open>2mb_hp\<close>, \<open>1gb_hp\<close>, \<open>malloc\<close>,
  each run between two clock readings and started in the world the one before has left;
  no run fails, and each leaves the world that its allocation's outcome determines
  (\<open>thp_run\<close>, \<open>mmap_run\<close>, \<open>malloc_run\<close>: the failure notice, or the sum line and
  the four phase lines). \<open>main\<close> then prints exactly one total-time line for each
  variant, in the same order, each with the whole milliseconds between the two readings
  around that run, and returns the exit status 0.
\<close>

theorem main_runs_every_variant:
  "let b1 = thp_run clk rc r_thp ''thp'' (tick w);
       b2 = mmap_run clk 21 p_2mb ''2mb_hp'' (tick (tick b1));
       b3 = mmap_run clk 30 p_1gb ''1gb_hp'' (tick (tick b2));
       b4 = malloc_run clk r_malloc ''malloc'' (tick (tick b3))
   in run_bench clk (hp_vec rc r_thp adv) ''thp'' (tick w) = Inr b1 \<and>
      run_bench clk (mmap_vec 21 p_2mb) ''2mb_hp'' (tick (tick b1)) = Inr b2 \<and>
      run_bench clk (mmap_vec 30 p_1gb) ''1gb_hp'' (tick (tick b2)) = Inr b3 \<and>
      run_bench clk (vec r_malloc) ''malloc'' (tick (tick b3)) = Inr b4 \<and>
      main clk rc r_thp adv p_2mb p_1gb r_malloc w = Inr (0, main_report clk w b1 b2 b3 b4)"
proof -
  define b1 where "b1 = thp_run clk rc r_thp ''thp'' (tick w)"
  define b2 where "b2 = mmap_run clk 21 p_2mb ''2mb_hp'' (tick (tick b1))"
  define b3 where "b3 = mmap_run clk 30 p_1gb ''1gb_hp'' (tick (tick b2))"
  define b4 where "b4 = malloc_run clk r_malloc ''malloc'' (tick (tick b3))"
  have r1: "run_bench clk (hp_vec rc r_thp adv) ''thp'' (tick w) = Inr b1"
    unfolding b1_def by (rule hp_vec_run)
  have r2: "run_bench clk (mmap_vec 21 p_2mb) ''2mb_hp'' (tick (tick b1)) = Inr b2"
    unfolding b2_def by (rule mmap_vec_run) simp
  have r3: "run_bench clk (mmap_vec 30 p_1gb) ''1gb_hp'' (tick (tick b2)) = Inr b3"
    unfolding b3_def by (rule mmap_vec_run) simp
  have r4: "run_bench clk (vec r_malloc) ''malloc'' (tick (tick b3)) = Inr b4"
    unfolding b4_def by (rule vec_run)
  have t2: "clock_reads (tick b1) = Suc (clock_reads b1)"
    and t3: "clock_reads (tick b2) = Suc (clock_reads b2)"
    and t4: "clock_reads (tick b3) = Suc (clock_reads b3)"
    by (simp_all add: tick_def)
  have "main clk rc r_thp adv p_2mb p_1gb r_malloc w = Inr (0, main_report clk w b1 b2 b3 b4)"
    unfolding main_def
    by (simp add: timed_run [OF r1] timed_run [OF r2] timed_run [OF r3] timed_run [OF r4]
        t2 t3 t4 main_report_def println_def)
      (simp add: tick_def)
  with r1 r2 r3 r4 show ?thesis
    by (simp add: Let_def b1_def b2_def b3_def b4_def)
qed

text \<open>
  With the clock at 1.5 ms per reading. First the four allocations fail: twelve lines of
  output and no release. Then \<open>posix_memalign\<close> fails, the 2 MiB mapping succeeds at
  2097152, the 1 GiB mapping fails and \<open>malloc\<close> succeeds at 4096.
\<close>

theorem main_runs_every_variant_witness:
  "main even_clock 12 (block_at 0) 0 MAP_FAILED MAP_FAILED (block_at 0) boot =
     Inr (0, boot
       \<lparr>clock_reads := 16,
        stdout :=
          [''thp failed to allocate memory'', '''',
           ''2mb_hp failed to allocate memory'', '''',
           ''1gb_hp failed to allocate memory'', '''',
           ''malloc failed to allocate memory'', '''',
           ''time thp: 4 ms'', ''time 2mb_hp: 4 ms'', ''time 1gb_hp: 4 ms'',
           ''time malloc: 4 ms''],
        syscalls :=
          [Sys_posix_memalign 2097152 68719476736, Sys_madvise_hugepage 0 68719476736,
           Sys_mmap_hugetlb 21 68719476736, Sys_mmap_hugetlb 30 68719476736,
           Sys_malloc 68719476736]\<rparr>) \<and>
   main even_clock 12 (block_at 0) 0 2097152 MAP_FAILED (block_at 4096) boot =
     Inr (0, boot
       \<lparr>clock_reads := 28,
        stdout :=
          [''thp failed to allocate memory'', '''',
           ''2mb_hp sum: 18446744065119617024'',
           ''2mb_hp time alloc: 1 ms'', ''2mb_hp time touch: 1 ms'',
           ''2mb_hp time sum: 1 ms'', ''2mb_hp time free: 1 ms'', '''',
           ''1gb_hp failed to allocate memory'', '''',
           ''malloc sum: 18446744065119617024'',
           ''malloc time alloc: 1 ms'', ''malloc time touch: 1 ms'',
           ''malloc time sum: 1 ms'', ''malloc time free: 1 ms'', '''',
           ''time thp: 4 ms'', ''time 2mb_hp: 13 ms'', ''time 1gb_hp: 4 ms'',
           ''time malloc: 13 ms''],
        syscalls :=
          [Sys_posix_memalign 2097152 68719476736, Sys_madvise_hugepage 0 68719476736,
           Sys_mmap_hugetlb 21 68719476736, Sys_munmap 2097152 68719476736,
           Sys_mmap_hugetlb 30 68719476736,
           Sys_malloc 68719476736, Sys_free 4096]\<rparr>)"
proof -
  have a: "main even_clock 12 (block_at 0) 0 MAP_FAILED MAP_FAILED (block_at 0) boot =
     Inr (0, boot
       \<lparr>clock_reads := 16,
        stdout :=
          [''thp failed to allocate memory'', '''',
           ''2mb_hp failed to allocate memory'', '''',
           ''1gb_hp failed to allocate memory'', '''',
           ''malloc failed to allocate memory'', '''',
           ''time thp: 4 ms'', ''time 2mb_hp: 4 ms'', ''time 1gb_hp: 4 ms'',
           ''time malloc: 4 ms''],
        syscalls :=
          [Sys_posix_memalign 2097152 68719476736, Sys_madvise_hugepage 0 68719476736,
           Sys_mmap_hugetlb 21 68719476736, Sys_mmap_hugetlb 30 68719476736,
           Sys_malloc 68719476736]\<rparr>)"
    using main_runs_every_variant
      [of even_clock 12 "block_at 0" boot MAP_FAILED MAP_FAILED "block_at 0" 0]
    by (simp add: run_defs)
  have b: "main even_clock 12 (block_at 0) 0 2097152 MAP_FAILED (block_at 4096) boot =
     Inr (0, boot
       \<lparr>clock_reads := 28,
        stdout :=
          [''thp failed to allocate memory'', '''',
           ''2mb_hp sum: 18446744065119617024'',
           ''2mb_hp time alloc: 1 ms'', ''2mb_hp time touch: 1 ms'',
           ''2mb_hp time sum: 1 ms'', ''2mb_hp time free: 1 ms'', '''',
           ''1gb_hp failed to allocate memory'', '''',
           ''malloc sum: 18446744065119617024'',
           ''malloc time alloc: 1 ms'', ''malloc time touch: 1 ms'',
           ''malloc time sum: 1 ms'', ''malloc time free: 1 ms'', '''',
           ''time thp: 4 ms'', ''time 2mb_hp: 13 ms'', ''time 1gb_hp: 4 ms'',
           ''time malloc: 13 ms''],
        syscalls :=
          [Sys_posix_memalign 2097152 68719476736, Sys_madvise_hugepage 0 68719476736,
           Sys_mmap_hugetlb 21 68719476736, Sys_munmap 2097152 68719476736,
           Sys_mmap_hugetlb 30 68719476736,
           Sys_malloc 68719476736, Sys_free 4096]\<rparr>)"
    using main_runs_every_variant
      [of even_clock 12 "block_at 0" boot 2097152 MAP_FAILED "block_at 4096" 0]
    by (simp add: run_defs)
  from a b show ?thesis by (rule conjI)
qed

text \<open>
  C7: \<open>ms f\<close> reads the clock, runs \<open>f\<close> once on the world it then has, and reads the
  clock again. If \<open>f\<close> fails, \<open>ms\<close> fails with the same fault. If \<open>f\<close> returns, the
  world \<open>ms\<close> leaves is the one \<open>f\<close> left, but for the second clock reading, and the
  result \<open>t\<close> is the difference of the two readings in whole milliseconds, truncated
  towards zero: \<open>|t| * 10^6 \<le> |d| < (|t| + 1) * 10^6\<close> and \<open>t\<close> has the sign of the
  difference \<open>d\<close>. Reading the clock changes nothing else in the world.
\<close>

theorem ms_contract:
  "(f (snd (now clk w)) = Inl e \<longrightarrow> ms clk f w = Inl e) \<and>
   (f (snd (now clk w)) = Inr (r, w2) \<longrightarrow>
      (\<exists>t. ms clk f w = Inr (t, r, w2\<lparr>clock_reads := Suc (clock_reads w2)\<rparr>) \<and>
           \<bar>t\<bar> * 1000000 \<le> \<bar>clk (clock_reads w2) - clk (clock_reads w)\<bar> \<and>
           \<bar>clk (clock_reads w2) - clk (clock_reads w)\<bar> < (\<bar>t\<bar> + 1) * 1000000 \<and>
           0 \<le> t * (clk (clock_reads w2) - clk (clock_reads w)))) \<and>
   snd (now clk w) = w\<lparr>clock_reads := Suc (clock_reads w)\<rparr>"
proof (intro conjI impI)
  assume "f (snd (now clk w)) = Inl e"
  then show "ms clk f w = Inl e" by (rule ms_Inl)
next
  assume a: "f (snd (now clk w)) = Inr (r, w2)"
  let ?d = "clk (clock_reads w2) - clk (clock_reads w)"
  have "ms clk f w = Inr (?d sdiv 1000000, r, w2\<lparr>clock_reads := Suc (clock_reads w2)\<rparr>)"
    using ms_Inr [of f clk w r w2] a by (simp add: now_def)
  with sdiv_truncates [OF refl, of ?d]
  show "\<exists>t. ms clk f w = Inr (t, r, w2\<lparr>clock_reads := Suc (clock_reads w2)\<rparr>) \<and>
           \<bar>t\<bar> * 1000000 \<le> \<bar>?d\<bar> \<and> \<bar>?d\<bar> < (\<bar>t\<bar> + 1) * 1000000 \<and> 0 \<le> t * ?d"
    by blast
next
  show "snd (now clk w) = w\<lparr>clock_reads := Suc (clock_reads w)\<rparr>" by (simp add: now_def)
qed

text \<open>
  1.5 ms between the readings gives 1 ms; -1.5 ms gives -1 ms; failing work makes \<open>ms\<close>
  fail.
\<close>

theorem ms_contract_witness:
  "ms even_clock one_line boot =
     Inr (1, (), boot\<lparr>stdout := [''work''], clock_reads := 2\<rparr>) \<and>
   ms backward_clock one_line boot =
     Inr (- 1, (), boot\<lparr>stdout := [''work''], clock_reads := 2\<rparr>) \<and>
   ms even_clock failing_work boot = Inl Invalid_access"
proof -
  let ?w2 = "boot\<lparr>stdout := [''work''], clock_reads := 1\<rparr>"
  have run: "one_line (snd (now clk boot)) = Inr ((), ?w2)" for clk
    by (simp add: one_line_def void_def println_def now_def boot_def)
  have fails: "failing_work (snd (now even_clock boot)) = Inl Invalid_access"
    by (simp add: failing_work_def void_def)
  from ms_contract [of one_line even_clock boot Invalid_access "()" ?w2] run
  obtain t where t: "ms even_clock one_line boot = Inr (t, (), ?w2\<lparr>clock_reads := Suc (clock_reads ?w2)\<rparr>)"
    and "\<bar>t\<bar> * 1000000 \<le> \<bar>even_clock (clock_reads ?w2) - even_clock (clock_reads boot)\<bar>"
    and "\<bar>even_clock (clock_reads ?w2) - even_clock (clock_reads boot)\<bar> < (\<bar>t\<bar> + 1) * 1000000"
    and "0 \<le> t * (even_clock (clock_reads ?w2) - even_clock (clock_reads boot))"
    by blast
  then have "\<bar>t\<bar> * 1000000 \<le> 1500000" "1500000 < (\<bar>t\<bar> + 1) * 1000000" "0 \<le> t * 1500000"
    by (simp_all add: even_clock_def boot_def)
  then have "t = 1" by (simp add: zero_le_mult_iff)
  with t have a: "ms even_clock one_line boot = Inr (1, (), boot\<lparr>stdout := [''work''], clock_reads := 2\<rparr>)"
    by (simp add: boot_def)
  from ms_contract [of one_line backward_clock boot Invalid_access "()" ?w2] run
  obtain u where u: "ms backward_clock one_line boot = Inr (u, (), ?w2\<lparr>clock_reads := Suc (clock_reads ?w2)\<rparr>)"
    and "\<bar>u\<bar> * 1000000 \<le> \<bar>backward_clock (clock_reads ?w2) - backward_clock (clock_reads boot)\<bar>"
    and "\<bar>backward_clock (clock_reads ?w2) - backward_clock (clock_reads boot)\<bar> < (\<bar>u\<bar> + 1) * 1000000"
    and "0 \<le> u * (backward_clock (clock_reads ?w2) - backward_clock (clock_reads boot))"
    by blast
  then have "\<bar>u\<bar> * 1000000 \<le> 1500000" "1500000 < (\<bar>u\<bar> + 1) * 1000000" "0 \<le> u * (- 1500000)"
    by (simp_all add: backward_clock_def boot_def)
  then have "u = - 1" by (simp add: zero_le_mult_iff)
  with u have b: "ms backward_clock one_line boot = Inr (- 1, (), boot\<lparr>stdout := [''work''], clock_reads := 2\<rparr>)"
    by (simp add: boot_def)
  from ms_contract [of failing_work even_clock boot Invalid_access] fails
  have c: "ms even_clock failing_work boot = Inl Invalid_access" by blast
  from a b c show ?thesis by blast
qed

end
